theory Spec2Isabelle
  imports Complex_Main
begin

section \<open>Values\<close>

text \<open>
  A Python or numpy float is a finite value (a real), one of the two infinities, or
  NaN. NaN is also the missing-value marker of pandas (\<open>np.nan\<close>, \<open>None\<close> and
  \<open>NaT\<close> are all read as NaN here).
\<close>

datatype pyfloat = Fin real | PInf | NInf | NaN

text \<open>The comparisons \<open><=\<close> and \<open><\<close> of floats: every comparison with NaN is false.\<close>

fun fle :: "pyfloat \<Rightarrow> pyfloat \<Rightarrow> bool" where
  "fle NaN _ = False"
| "fle _ NaN = False"
| "fle NInf _ = True"
| "fle _ PInf = True"
| "fle (Fin a) (Fin b) = (a \<le> b)"
| "fle _ _ = False"

fun flt :: "pyfloat \<Rightarrow> pyfloat \<Rightarrow> bool" where
  "flt NaN _ = False"
| "flt _ NaN = False"
| "flt PInf _ = False"
| "flt _ NInf = False"
| "flt (Fin a) (Fin b) = (a < b)"
| "flt _ _ = True"

text \<open>
  The result of a float operation or of reading a decimal text is the exact result
  rounded to the nearest IEEE-754 binary64 value: 53 significant bits, ties to the
  even significand, the exponent of the last bit no lower than \<open>-1074\<close>, and an
  infinity when the rounded magnitude reaches \<open>2^1024\<close>. The sign of zero is not kept.
\<close>

definition round_half_even :: "real \<Rightarrow> int" where
  "round_half_even m =
     (let f = \<lfloor>m\<rfloor>; d = m - of_int f
      in if d < 1 / 2 then f else if 1 / 2 < d then f + 1 else if even f then f else f + 1)"

definition to_double :: "real \<Rightarrow> pyfloat" where
  "to_double x =
     (if x = 0 then Fin 0
      else (let e = \<lfloor>log 2 \<bar>x\<bar>\<rfloor>; q = max e (- 1022) - 52;
                y = of_int (round_half_even (\<bar>x\<bar> / 2 powi q)) * 2 powi q
            in if 2 ^ 1024 \<le> y then (if 0 < x then PInf else NInf) else Fin (sgn x * y)))"

text \<open>
  Float arithmetic as numpy's \<open>float64\<close> does it: NaN is absorbing, opposite
  infinities cancel to NaN, a division by zero yields an infinity or NaN instead of
  raising, and a finite result is rounded.
\<close>

fun fneg :: "pyfloat \<Rightarrow> pyfloat" where
  "fneg (Fin a) = Fin (- a)"
| "fneg PInf = NInf"
| "fneg NInf = PInf"
| "fneg NaN = NaN"

fun fadd :: "pyfloat \<Rightarrow> pyfloat \<Rightarrow> pyfloat" where
  "fadd NaN _ = NaN"
| "fadd _ NaN = NaN"
| "fadd (Fin a) (Fin b) = to_double (a + b)"
| "fadd PInf NInf = NaN"
| "fadd NInf PInf = NaN"
| "fadd PInf _ = PInf"
| "fadd NInf _ = NInf"
| "fadd _ PInf = PInf"
| "fadd _ NInf = NInf"

definition fsub :: "pyfloat \<Rightarrow> pyfloat \<Rightarrow> pyfloat" where
  "fsub a b = fadd a (fneg b)"

definition inf_of_sign :: "real \<Rightarrow> pyfloat" where
  "inf_of_sign a = (if 0 < a then PInf else if a < 0 then NInf else NaN)"

fun fmul :: "pyfloat \<Rightarrow> pyfloat \<Rightarrow> pyfloat" where
  "fmul NaN _ = NaN"
| "fmul _ NaN = NaN"
| "fmul (Fin a) (Fin b) = to_double (a * b)"
| "fmul (Fin a) PInf = inf_of_sign a"
| "fmul (Fin a) NInf = inf_of_sign (- a)"
| "fmul PInf (Fin b) = inf_of_sign b"
| "fmul NInf (Fin b) = inf_of_sign (- b)"
| "fmul PInf PInf = PInf"
| "fmul NInf NInf = PInf"
| "fmul _ _ = NInf"

fun fdiv :: "pyfloat \<Rightarrow> pyfloat \<Rightarrow> pyfloat" where
  "fdiv NaN _ = NaN"
| "fdiv _ NaN = NaN"
| "fdiv (Fin a) (Fin b) = (if b = 0 then inf_of_sign a else to_double (a / b))"
| "fdiv (Fin a) _ = Fin 0"
| "fdiv PInf (Fin b) = (if 0 \<le> b then PInf else NInf)"
| "fdiv NInf (Fin b) = (if 0 \<le> b then NInf else PInf)"
| "fdiv _ _ = NaN"

section \<open>Errors, cells and tables\<close>

text \<open>The exceptions the modelled code can raise; a computation that raises returns \<open>Inl\<close>.\<close>

datatype error = KeyError | TypeError | ValueError

definition bindE :: "error + 'a \<Rightarrow> ('a \<Rightarrow> error + 'b) \<Rightarrow> error + 'b" where
  "bindE m f = (case m of Inl e \<Rightarrow> Inl e | Inr x \<Rightarrow> f x)"

fun mapE :: "('a \<Rightarrow> error + 'b) \<Rightarrow> 'a list \<Rightarrow> error + 'b list" where
  "mapE f [] = Inr []"
| "mapE f (x # xs) =
     (case f x of Inl e \<Rightarrow> Inl e
      | Inr y \<Rightarrow> (case mapE f xs of Inl e \<Rightarrow> Inl e | Inr ys \<Rightarrow> Inr (y # ys)))"

text \<open>
  One cell of a DataFrame: a float (NaN is the missing value), an int, a string, a
  boolean, a list of strings (the parsed amenities) or a date, counted in whole days.
  The characters of a string are the code points up to U+00FF.
\<close>

datatype cell = Num pyfloat | IntC int | Str string | Bool bool | Lst "string list" | Day int

definition isna :: "cell \<Rightarrow> bool" where
  "isna c = (c = Num NaN)"

text \<open>
  The numeric reading of a cell in arithmetic and comparisons; a Python bool is an int,
  and an int is read with its exact value.
\<close>

fun as_float :: "cell \<Rightarrow> pyfloat option" where
  "as_float (Num x) = Some x"
| "as_float (IntC n) = Some (Fin (of_int n))"
| "as_float (Bool b) = Some (Fin (if b then 1 else 0))"
| "as_float _ = None"

text \<open>\<open>series >= k\<close>, \<open>series <= k\<close> and \<open>series > k\<close> on one cell: comparing a string,
  a list or a date with a number raises TypeError.\<close>

definition cell_ge :: "cell \<Rightarrow> pyfloat \<Rightarrow> error + bool" where
  "cell_ge c k = (case as_float c of None \<Rightarrow> Inl TypeError | Some x \<Rightarrow> Inr (fle k x))"

definition cell_le :: "cell \<Rightarrow> pyfloat \<Rightarrow> error + bool" where
  "cell_le c k = (case as_float c of None \<Rightarrow> Inl TypeError | Some x \<Rightarrow> Inr (fle x k))"

definition cell_gt :: "cell \<Rightarrow> pyfloat \<Rightarrow> error + bool" where
  "cell_gt c k = (case as_float c of None \<Rightarrow> Inl TypeError | Some x \<Rightarrow> Inr (flt k x))"

text \<open>
  A DataFrame: its column labels in order, and its rows in order, each row giving the
  cell of every column. Only the cells of the listed columns are ever read. The index
  is positional: the cleaning steps keep the labels of the rows they keep, so every
  alignment of a derived column with its table is the identity.
\<close>

record table =
  columns :: "string list"
  rows :: "(string \<Rightarrow> cell) list"

definition has_col :: "table \<Rightarrow> string \<Rightarrow> bool" where
  "has_col df c = (c \<in> set (columns df))"

text \<open>\<open>df[c]\<close> read: KeyError when the column does not exist.\<close>

definition getcol :: "table \<Rightarrow> string \<Rightarrow> error + cell list" where
  "getcol df c = (if has_col df c then Inr (map (\<lambda>r. r c) (rows df)) else Inl KeyError)"

text \<open>\<open>df[c] = f(row)\<close>: a new column goes last, an existing one is overwritten in place.\<close>

definition setcol :: "string \<Rightarrow> ((string \<Rightarrow> cell) \<Rightarrow> cell) \<Rightarrow> table \<Rightarrow> table" where
  "setcol c f df =
     \<lparr>columns = (if has_col df c then columns df else columns df @ [c]),
      rows = map (\<lambda>r. r(c := f r)) (rows df)\<rparr>"

text \<open>\<open>df[mask]\<close>: the rows where the mask holds, in order.\<close>

definition select_rows :: "((string \<Rightarrow> cell) \<Rightarrow> bool) \<Rightarrow> table \<Rightarrow> table" where
  "select_rows p df = df\<lparr>rows := filter p (rows df)\<rparr>"

text \<open>\<open>df.dropna(subset=cs)\<close>: the rows with no missing value in the columns \<open>cs\<close>.\<close>

definition dropna :: "string list \<Rightarrow> table \<Rightarrow> table" where
  "dropna cs df = select_rows (\<lambda>r. \<forall>c \<in> set cs. \<not> isna (r c)) df"

text \<open>
  Keys of \<open>drop_duplicates\<close>, \<open>groupby\<close> and \<open>value_counts\<close> are hashed: \<open>True\<close>,
  \<open>1\<close> and \<open>1.0\<close> are the same key, and a list cannot be a key (TypeError:
  unhashable).
\<close>

fun norm_key :: "cell \<Rightarrow> cell" where
  "norm_key (Bool b) = Num (Fin (if b then 1 else 0))"
| "norm_key (IntC n) = Num (Fin (of_int n))"
| "norm_key c = c"

fun is_list :: "cell \<Rightarrow> bool" where
  "is_list (Lst xs) = True"
| "is_list _ = False"

text \<open>The keys of column \<open>c\<close>: KeyError without the column, TypeError on a list.\<close>

definition key_col :: "table \<Rightarrow> string \<Rightarrow> error + cell list" where
  "key_col df c =
     (if \<not> has_col df c then Inl KeyError
      else if \<exists>r \<in> set (rows df). is_list (r c) then Inl TypeError
      else Inr (map (\<lambda>r. norm_key (r c)) (rows df)))"

text \<open>Assignment of a column computed as a whole, cell by position.\<close>

definition setcol_list :: "string \<Rightarrow> cell list \<Rightarrow> table \<Rightarrow> table" where
  "setcol_list c vs df =
     \<lparr>columns = (if has_col df c then columns df else columns df @ [c]),
      rows = map (\<lambda>(r, v). r(c := v)) (zip (rows df) vs)\<rparr>"

text \<open>
  \<open>df[c] = g(df[a], df[b], ...)\<close> for an elementwise \<open>g\<close> that can raise: the first
  cell that raises aborts the assignment, and the table is then not changed.
\<close>

definition assign_rows ::
  "string \<Rightarrow> ((string \<Rightarrow> cell) \<Rightarrow> error + cell) \<Rightarrow> table \<Rightarrow> error + table" where
  "assign_rows c f df =
     (case mapE f (rows df) of Inl e \<Rightarrow> Inl e | Inr vs \<Rightarrow> Inr (setcol_list c vs df))"

text \<open>A boolean mask computed elementwise, then \<open>df[mask]\<close>.\<close>

fun filterE :: "('a \<Rightarrow> error + bool) \<Rightarrow> 'a list \<Rightarrow> error + 'a list" where
  "filterE p [] = Inr []"
| "filterE p (x # xs) =
     (case p x of Inl e \<Rightarrow> Inl e
      | Inr b \<Rightarrow> (case filterE p xs of Inl e \<Rightarrow> Inl e
                   | Inr ys \<Rightarrow> Inr (if b then x # ys else ys)))"

text \<open>
  Arithmetic on cells: a string, a list or a date as an operand raises TypeError. The
  result is given as a float, also where pandas keeps two ints an int.
\<close>

definition cell_op :: "(pyfloat \<Rightarrow> pyfloat \<Rightarrow> pyfloat) \<Rightarrow> cell \<Rightarrow> cell \<Rightarrow> error + cell" where
  "cell_op f a b =
     (case as_float a of
        None \<Rightarrow> Inl TypeError
      | Some x \<Rightarrow> (case as_float b of None \<Rightarrow> Inl TypeError | Some y \<Rightarrow> Inr (Num (f x y))))"

section \<open>Configuration\<close>

text \<open>
  \<open>config["analysis"]["segments"]\<close> is an ordered mapping from a segment name to
  \<open>{min, max, label}\<close>; \<open>.items()\<close> and \<open>.values()\<close> walk it in declaration order.
\<close>

record segment =
  seg_name :: string
  seg_min :: pyfloat
  seg_max :: pyfloat
  seg_label :: string

text \<open>The part of \<open>config\<close> the modelled code reads.\<close>

record config =
  price_min :: pyfloat
  price_max :: pyfloat
  min_reviews :: pyfloat
  segments :: "segment list"
  high_season_months :: "int list"
  low_season_months :: "int list"


section \<open>Text and the float parser\<close>

text \<open>
  \<open>str.strip()\<close> drops the characters for which \<open>str.isspace\<close> holds; up to U+00FF
  these are tab to carriage return, the separators 0x1C to 0x1F, the space, U+0085
  and U+00A0.
\<close>

definition is_space :: "char \<Rightarrow> bool" where
  "is_space c = (c \<in> set [CHR 0x09, CHR 0x0A, CHR 0x0B, CHR 0x0C, CHR 0x0D,
                            CHR 0x1C, CHR 0x1D, CHR 0x1E, CHR 0x1F, CHR '' '',
                            CHR 0x85, CHR 0xA0])"

definition strip :: "string \<Rightarrow> string" where
  "strip s = rev (dropWhile is_space (rev (dropWhile is_space s)))"

text \<open>\<open>s.replace(c, "")\<close> for a one-character \<open>c\<close>.\<close>

definition remove_char :: "char \<Rightarrow> string \<Rightarrow> string" where
  "remove_char c s = filter (\<lambda>d. d \<noteq> c) s"

text \<open>
  \<open>float(s)\<close> first rewrites the text to ASCII: a character below 0x7F is kept, a
  whitespace character above becomes a space, and at any other character the text is
  cut and ends in a question mark. It then drops the leading and trailing C
  whitespace (tab to carriage return, and the space).
\<close>

fun to_ascii_text :: "string \<Rightarrow> string" where
  "to_ascii_text [] = []"
| "to_ascii_text (c # cs) =
     (if \<not> digit7 c \<and> c \<noteq> CHR 0x7F then c # to_ascii_text cs
      else if is_space c then CHR '' '' # to_ascii_text cs
      else ''?'')"

definition is_c_space :: "char \<Rightarrow> bool" where
  "is_c_space c = (c \<in> set [CHR 0x09, CHR 0x0A, CHR 0x0B, CHR 0x0C, CHR 0x0D, CHR '' ''])"

definition c_strip :: "string \<Rightarrow> string" where
  "c_strip s = rev (dropWhile is_c_space (rev (dropWhile is_c_space s)))"

definition lower_char :: "char \<Rightarrow> char" where
  "lower_char c =
     (case map_of (zip ''ABCDEFGHIJKLMNOPQRSTUVWXYZ'' ''abcdefghijklmnopqrstuvwxyz'') c of
        Some l \<Rightarrow> l | None \<Rightarrow> c)"

definition is_digit :: "char \<Rightarrow> bool" where
  "is_digit c = (c \<in> set ''0123456789'')"


definition digit_val :: "char \<Rightarrow> nat" where
  "digit_val c = length (takeWhile (\<lambda>d. d \<noteq> c) ''0123456789'')"

text \<open>
  The grammar of \<open>float(str)\<close> (Python language reference, built-in \<open>float\<close>):
  \<^verbatim>\<open>
  digitpart   ::= digit (["_"] digit)*
  number      ::= [digitpart] "." digitpart | digitpart ["."]
  exponent    ::= ("e" | "E") [sign] digitpart
  floatnumber ::= number [exponent]
  floatvalue  ::= [sign] (floatnumber | "inf" | "infinity" | "nan")
  \<close>
  with the three words read in any case. \<open>digitpart\<close> returns the digits read,
  \<open>None\<close> when the text is not a digitpart. The number read is the decimal value of
  the text, rounded to the nearest double; the sign is applied to the rounded value.
\<close>

fun digitpart :: "string \<Rightarrow> nat list option" where
  "digitpart [] = None"
| "digitpart [c] = (if is_digit c then Some [digit_val c] else None)"
| "digitpart (c # d # cs) =
     (if \<not> is_digit c then None
      else if d = CHR ''_'' then map_option (Cons (digit_val c)) (digitpart cs)
      else map_option (Cons (digit_val c)) (digitpart (d # cs)))"

definition nat_of_digits :: "nat list \<Rightarrow> nat" where
  "nat_of_digits ds = foldl (\<lambda>a d. 10 * a + d) 0 ds"

definition digits_real :: "string \<Rightarrow> real option" where
  "digits_real s = map_option (\<lambda>ds. real (nat_of_digits ds)) (digitpart s)"

definition parse_number :: "string \<Rightarrow> real option" where
  "parse_number m =
     (let ip = takeWhile (\<lambda>c. c \<noteq> CHR ''.'') m;
          fr = dropWhile (\<lambda>c. c \<noteq> CHR ''.'') m
      in if fr = [] \<or> tl fr = [] then digits_real ip
         else (case digitpart (tl fr) of
                 None \<Rightarrow> None
               | Some fd \<Rightarrow>
                   (let frac = real (nat_of_digits fd) / 10 ^ length fd
                    in if ip = [] then Some frac
                       else map_option (\<lambda>i. i + frac) (digits_real ip))))"

definition parse_exponent :: "string \<Rightarrow> int option" where
  "parse_exponent x =
     (case x of
        [] \<Rightarrow> None
      | c # cs \<Rightarrow>
          if c = CHR ''+'' then map_option (\<lambda>ds. int (nat_of_digits ds)) (digitpart cs)
          else if c = CHR ''-'' then map_option (\<lambda>ds. - int (nat_of_digits ds)) (digitpart cs)
          else map_option (\<lambda>ds. int (nat_of_digits ds)) (digitpart x))"

definition scale10 :: "real \<Rightarrow> int \<Rightarrow> real" where
  "scale10 v e = (if 0 \<le> e then v * 10 ^ nat e else v / 10 ^ nat (- e))"

definition is_exp_mark :: "char \<Rightarrow> bool" where
  "is_exp_mark c = (c = CHR ''e'' \<or> c = CHR ''E'')"

definition parse_floatnumber :: "string \<Rightarrow> real option" where
  "parse_floatnumber s =
     (let m = takeWhile (\<lambda>c. \<not> is_exp_mark c) s;
          r = dropWhile (\<lambda>c. \<not> is_exp_mark c) s
      in case parse_number m of
           None \<Rightarrow> None
         | Some v \<Rightarrow>
             if r = [] then Some v
             else map_option (scale10 v) (parse_exponent (tl r)))"

definition parse_abs :: "bool \<Rightarrow> string \<Rightarrow> pyfloat option" where
  "parse_abs neg body =
     (let w = map lower_char body
      in if w = ''inf'' \<or> w = ''infinity'' then Some (if neg then NInf else PInf)
         else if w = ''nan'' then Some NaN
         else map_option (\<lambda>v. if neg then fneg (to_double v) else to_double v)
                (parse_floatnumber body))"

definition parse_floatvalue :: "string \<Rightarrow> pyfloat option" where
  "parse_floatvalue u =
     (case u of
        [] \<Rightarrow> None
      | c # cs \<Rightarrow>
          if c = CHR ''+'' then parse_abs False cs
          else if c = CHR ''-'' then parse_abs True cs
          else parse_abs False (c # cs))"

text \<open>\<open>float(s)\<close> for a string: \<open>None\<close> is the ValueError.\<close>

definition py_float :: "string \<Rightarrow> pyfloat option" where
  "py_float s = parse_floatvalue (c_strip (to_ascii_text s))"

section \<open>Library functions taken as parameters\<close>

text \<open>A value parsed by \<open>json.loads\<close>.\<close>

datatype json = JNull | JBool bool | JNum pyfloat | JStr string
  | JArr "json list" | JObj "(string \<times> json) list"

text \<open>
  The functions of Python, pandas and the clock that the modelled code calls and that
  are not written in this repository:
  \<^item> \<open>float_repr\<close>: \<open>str\<close> of a finite float (the shortest text that reads back);
  \<^item> \<open>int_max_str_digits\<close>: the limit of \<open>sys.set_int_max_str_digits\<close> on the digits
    of an int turned into text, 0 for no limit;
  \<^item> \<open>json_loads\<close> (\<open>None\<close> is JSONDecodeError) and \<open>json_str\<close>, \<open>str\<close> of a parsed
    JSON value that is not a string;
  \<^item> \<open>to_datetime\<close>: \<open>pd.to_datetime(column, errors="coerce")\<close>, which gives for each
    position of the column the day it parses to (\<open>None\<close> is NaT);
  \<^item> \<open>today\<close>: the day \<open>pd.Timestamp.now().normalize()\<close>;
  \<^item> \<open>dt_month\<close> and \<open>dt_dayofweek\<close>: the accessors \<open>.dt.month\<close> and \<open>.dt.dayofweek\<close>;
  \<^item> \<open>float_mean\<close>, \<open>float_median\<close> and \<open>float_sum\<close>: the aggregations of pandas on
    the values that are left of a selection once the missing ones are dropped, when
    there is at least one (the order of the additions and their rounding are theirs).
\<close>

record pylib =
  float_repr :: "real \<Rightarrow> string"
  int_max_str_digits :: nat
  json_loads :: "string \<Rightarrow> json option"
  json_str :: "json \<Rightarrow> string"
  to_datetime :: "cell list \<Rightarrow> nat \<Rightarrow> int option"
  today :: int
  dt_month :: "int \<Rightarrow> int"
  dt_dayofweek :: "int \<Rightarrow> int"
  float_mean :: "pyfloat list \<Rightarrow> pyfloat"
  float_median :: "pyfloat list \<Rightarrow> pyfloat"
  float_sum :: "pyfloat list \<Rightarrow> pyfloat"

text \<open>
  \<open>Series.mean\<close>, \<open>Series.median\<close> and \<open>Series.sum\<close>: missing values are skipped; an
  empty selection has mean and median NaN, and sum 0.
\<close>

definition series_mean :: "pylib \<Rightarrow> pyfloat list \<Rightarrow> pyfloat" where
  "series_mean L xs =
     (let ys = filter (\<lambda>x. x \<noteq> NaN) xs in if ys = [] then NaN else float_mean L ys)"

definition series_median :: "pylib \<Rightarrow> pyfloat list \<Rightarrow> pyfloat" where
  "series_median L xs =
     (let ys = filter (\<lambda>x. x \<noteq> NaN) xs in if ys = [] then NaN else float_median L ys)"

definition series_sum :: "pylib \<Rightarrow> pyfloat list \<Rightarrow> pyfloat" where
  "series_sum L xs =
     (let ys = filter (\<lambda>x. x \<noteq> NaN) xs in if ys = [] then Fin 0 else float_sum L ys)"

text \<open>
  \<open>str(n)\<close> of an int: its decimal digits, most significant first, after a minus sign
  when it is negative; ValueError when there are more digits than the limit.
\<close>

fun nat_digits :: "nat \<Rightarrow> string" where
  "nat_digits n =
     (if n < 10 then [''0123456789'' ! n]
      else nat_digits (n div 10) @ [''0123456789'' ! (n mod 10)])"

definition int_str :: "pylib \<Rightarrow> int \<Rightarrow> error + string" where
  "int_str L n =
     (let ds = nat_digits (nat \<bar>n\<bar>)
      in if 0 < int_max_str_digits L \<and> int_max_str_digits L < length ds then Inl ValueError
         else Inr (if n < 0 then CHR ''-'' # ds else ds))"

text \<open>\<open>str(x)\<close> of a number, a string or a boolean.\<close>

fun py_str :: "pylib \<Rightarrow> cell \<Rightarrow> error + string" where
  "py_str L (Str s) = Inr s"
| "py_str L (Num (Fin r)) = Inr (float_repr L r)"
| "py_str L (Num PInf) = Inr ''inf''"
| "py_str L (Num NInf) = Inr ''-inf''"
| "py_str L (Num NaN) = Inr ''nan''"
| "py_str L (IntC n) = int_str L n"
| "py_str L (Bool b) = Inr (if b then ''True'' else ''False'')"

section \<open>Data cleaner: prices\<close>

text \<open>
  \<open>clean_price\<close>. \<open>pd.isna\<close> of a list is an array, whose truth value raises
  ValueError unless it has one element; \<open>str\<close> of a one-element list starts with a
  bracket and \<open>str\<close> of a timestamp has colons, which \<open>float\<close> rejects. For every
  other cell: NaN when missing, else the float read from the text without \<open>$\<close> and
  \<open>,\<close>, trimmed, and NaN when \<open>float\<close> raises ValueError. \<open>str(price_str)\<close> stands
  before the \<open>try\<close>: when it raises, \<open>clean_price\<close> raises.
\<close>

definition clean_price :: "pylib \<Rightarrow> cell \<Rightarrow> error + pyfloat" where
  "clean_price L price_str =
     (case price_str of
        Lst xs \<Rightarrow> if length xs = 1 then Inr NaN else Inl ValueError
      | Day d \<Rightarrow> Inr NaN
      | _ \<Rightarrow>
          if isna price_str then Inr NaN
          else bindE (py_str L price_str)
                 (\<lambda>t. let s = strip (remove_char (CHR '','') (remove_char (CHR ''$'') t))
                      in case py_float s of Some x \<Rightarrow> Inr x | None \<Rightarrow> Inr NaN))"

section \<open>Rounding: values that a double holds exactly\<close>

lemma round_half_even_int: "round_half_even (of_int k) = k"
  by (simp add: round_half_even_def)

lemma floor_log2_less:
  assumes "0 < a" and "a < 2 powi n"
  shows "\<lfloor>log 2 a\<rfloor> < n"
proof -
  have "log 2 a < log 2 (2 powi n)" using assms by (simp add: log_less_cancel_iff)
  also have "log 2 (2 powi n) = of_int n"
    using powr_real_of_int' [of 2 n, symmetric] by simp
  finally show ?thesis by (simp add: floor_less_iff)
qed

lemma to_double_exact:
  assumes k: "\<bar>k\<bar> < 2 ^ 53" and j: "- 1074 \<le> j" "j \<le> 971"
  shows "to_double (of_int k * 2 powi j) = Fin (of_int k * 2 powi j)"
proof (cases "k = 0")
  case True
  then show ?thesis by (simp add: to_double_def)
next
  case False
  define x :: real where "x = of_int k * 2 powi j"
  define a :: real where "a = \<bar>x\<bar>"
  have p: "(0::real) < 2 powi i" for i by simp
  have a: "a = of_int \<bar>k\<bar> * 2 powi j" unfolding a_def x_def by (simp add: abs_mult)
  from False have a0: "0 < a" unfolding a by simp
  then have x0: "x \<noteq> 0" unfolding a_def by simp
  from k have kr: "real_of_int \<bar>k\<bar> < 2 ^ 53"
    using of_int_less_iff [of "\<bar>k\<bar>" "2 ^ 53", where ?'a = real] by simp
  have "a < 2 ^ 53 * 2 powi j"
    unfolding a using kr p [of j] by (intro mult_strict_right_mono)
  also have "\<dots> = 2 powi (53 + j)" by (simp add: power_int_add)
  finally have lt: "a < 2 powi (53 + j)" .
  define e where "e = \<lfloor>log 2 a\<rfloor>"
  define q where "q = max e (- 1022) - 52"
  from floor_log2_less [OF a0 lt] have "e < 53 + j" unfolding e_def .
  with j have qj: "q \<le> j" unfolding q_def by simp
  define n where "n = \<bar>k\<bar> * 2 ^ nat (j - q)"
  have "2 powi j = (2::real) powi (j - q) * 2 powi q" by (simp add: power_int_add [symmetric])
  also have "(2::real) powi (j - q) = 2 ^ nat (j - q)" using qj by (simp add: power_int_def)
  finally have s: "(2::real) powi j = 2 ^ nat (j - q) * 2 powi q" .
  have m: "a / 2 powi q = of_int n" unfolding a n_def s by simp
  have y: "of_int (round_half_even (a / 2 powi q)) * 2 powi q = a"
    unfolding m round_half_even_int unfolding n_def a s by simp
  have pj: "(2::real) powi j \<le> 2 powi 971" using j by (intro power_int_increasing) simp_all
  have "a \<le> of_int \<bar>k\<bar> * 2 powi 971"
    unfolding a using pj by (rule mult_left_mono) simp
  also have "\<dots> < 2 ^ 53 * 2 powi 971"
    using kr p [of 971] by (rule mult_strict_right_mono)
  finally have "a < 2 ^ 53 * 2 powi 971" .
  also have "\<dots> = 2 ^ 1024" by (simp add: power_int_def power_add [symmetric])
  finally have b: "\<not> 2 ^ 1024 \<le> a" by simp
  have "sgn x * a = x" unfolding a_def by (simp add: sgn_mult_abs)
  with x0 y b show ?thesis
    unfolding x_def [symmetric] to_double_def Let_def a_def [symmetric] e_def [symmetric]
      q_def [symmetric] by simp
qed

lemma to_double_int: "\<bar>k\<bar> < 2 ^ 53 \<Longrightarrow> to_double (of_int k) = Fin (of_int k)"
  using to_double_exact [of k 0] by simp

lemma to_double_numeral [simp]:
  "numeral w < (2::int) ^ 53 \<Longrightarrow> to_double (numeral w) = Fin (numeral w)"
  using to_double_int [of "numeral w"] by simp

lemma to_double_half: "to_double (1 / 2) = Fin (1 / 2)"
  using to_double_exact [of 1 "- 1"] by (simp add: power_int_def)

lemma to_double_one: "to_double 1 = Fin 1"
  using to_double_int [of 1] by simp

lemma to_double_halves:
  "numeral w < (2::int) ^ 53 \<Longrightarrow> to_double (numeral w / 2) = Fin (numeral w / 2)"
  using to_double_exact [of "numeral w" "- 1"] by (simp add: power_int_def)

lemma to_double_zero: "to_double 0 = Fin 0"
  by (simp add: to_double_def)

lemma to_double_big: "to_double (2 ^ 53 + 1) = Fin (2 ^ 53)"
proof -
  define b :: real where "b = 2 ^ 53 + 1"
  have b0: "0 < b" "b \<noteq> 0" "\<bar>b\<bar> = b" "sgn b = 1" unfolding b_def by simp_all
  have e: "\<lfloor>log 2 b\<rfloor> = 53"
    unfolding b_def by (subst floor_log_eq_powr_iff) (simp_all add: powr_realpow)
  have q: "max (53::int) (- 1022) - 52 = 1" by simp
  have h: "b / 2 powi 1 = of_int (2 ^ 52) + 1 / 2" unfolding b_def by simp
  have f: "\<lfloor>b / 2 powi 1\<rfloor> = 2 ^ 52" unfolding h by (simp add: floor_eq_iff)
  have d: "b / 2 powi 1 - of_int (2 ^ 52) = 1 / 2" unfolding h by simp
  have r: "round_half_even (b / 2 powi 1) = 2 ^ 52"
    unfolding round_half_even_def Let_def f d by simp
  have "to_double b = Fin (2 ^ 53)"
    unfolding to_double_def Let_def b0 e q r using b0(1,2) by simp
  then show ?thesis unfolding b_def .
qed

section \<open>Data cleaner: amenities\<close>

text \<open>The truth value of a parsed JSON value (\<open>if a\<close>).\<close>

fun json_truthy :: "json \<Rightarrow> bool" where
  "json_truthy JNull = False"
| "json_truthy (JBool b) = b"
| "json_truthy (JNum x) = (x \<noteq> Fin 0)"
| "json_truthy (JStr s) = (s \<noteq> [])"
| "json_truthy (JArr xs) = (xs \<noteq> [])"
| "json_truthy (JObj kvs) = (kvs \<noteq> [])"

definition json_to_str :: "pylib \<Rightarrow> json \<Rightarrow> string" where
  "json_to_str L a = (case a of JStr s \<Rightarrow> s | _ \<Rightarrow> json_str L a)"

text \<open>
  \<open>parse_amenities\<close>. As in \<open>clean_price\<close>, \<open>pd.isna\<close> of a list raises unless the
  list has one element. \<open>json.loads\<close> of a cell that is not a string raises TypeError,
  which is caught like JSONDecodeError.
\<close>

definition parse_amenities :: "pylib \<Rightarrow> cell \<Rightarrow> error + string list" where
  "parse_amenities L amenities_str =
     (case amenities_str of
        Lst xs \<Rightarrow> if length xs = 1 then Inr [] else Inl ValueError
      | Str s \<Rightarrow>
          (case json_loads L s of
             Some (JArr parsed) \<Rightarrow> Inr (map (\<lambda>a. strip (json_to_str L a)) (filter json_truthy parsed))
           | _ \<Rightarrow> Inr [])
      | _ \<Rightarrow> Inr [])"

section \<open>Data cleaner: the listings pipeline\<close>

text \<open>\<open>keep="first"\<close>: a row is kept when no earlier row has its key.\<close>

fun drop_dups :: "('a \<Rightarrow> 'k) \<Rightarrow> 'k list \<Rightarrow> 'a list \<Rightarrow> 'a list" where
  "drop_dups key seen [] = []"
| "drop_dups key seen (r # rs) =
     (if key r \<in> set seen then drop_dups key seen rs
      else r # drop_dups key (key r # seen) rs)"

definition remove_duplicates :: "table \<Rightarrow> error + table" where
  "remove_duplicates df =
     bindE (key_col df ''id'')
       (\<lambda>ks. Inr (df\<lparr>rows := drop_dups (\<lambda>r. norm_key (r ''id'')) [] (rows df)\<rparr>))"

text \<open>Step 2 of \<open>clean_listings\<close>: \<open>df["price"] = df["price"].apply(clean_price)\<close>.\<close>

definition normalize_price :: "pylib \<Rightarrow> table \<Rightarrow> error + table" where
  "normalize_price L df =
     (if \<not> has_col df ''price'' then Inl KeyError
      else assign_rows ''price''
             (\<lambda>r. case clean_price L (r ''price'') of Inl e \<Rightarrow> Inl e | Inr x \<Rightarrow> Inr (Num x)) df)"

text \<open>
  \<open>df.groupby("room_type")[col].transform("median")\<close> at a row with room type \<open>k\<close>:
  the median of the column over the rows of the same room type; rows with a missing
  room type are in no group and get NaN.
\<close>

definition group_median :: "pylib \<Rightarrow> table \<Rightarrow> string \<Rightarrow> cell \<Rightarrow> pyfloat" where
  "group_median L df col k =
     (if isna k then NaN
      else series_median L (map (\<lambda>r. case as_float (r col) of Some x \<Rightarrow> x | None \<Rightarrow> NaN)
                     (filter (\<lambda>r. norm_key (r ''room_type'') = norm_key k) (rows df))))"

definition fill_by_room_type :: "pylib \<Rightarrow> string \<Rightarrow> table \<Rightarrow> error + table" where
  "fill_by_room_type L col df =
     (if \<not> has_col df col then Inr df
      else bindE (key_col df ''room_type'')
        (\<lambda>ks. if \<exists>r \<in> set (rows df). as_float (r col) = None then Inl TypeError
              else Inr (setcol col
                     (\<lambda>r. if isna (r col)
                          then (let m = group_median L df col (r ''room_type'')
                                in Num (if m = NaN then Fin 1 else m))
                          else r col) df)))"

definition handle_missing_values :: "pylib \<Rightarrow> table \<Rightarrow> error + table" where
  "handle_missing_values L df =
     (let critical = [''id'', ''price'', ''latitude'', ''longitude''];
          df1 = dropna (filter (has_col df) critical) df
      in bindE (fill_by_room_type L ''bedrooms'' df1) (fill_by_room_type L ''beds''))"

text \<open>\<open>(df["price"] >= price_min) & (df["price"] <= price_max)\<close> at one row.\<close>

definition price_in_bounds :: "config \<Rightarrow> (string \<Rightarrow> cell) \<Rightarrow> error + bool" where
  "price_in_bounds cfg r =
     bindE (cell_ge (r ''price'') (price_min cfg))
       (\<lambda>a. bindE (cell_le (r ''price'') (price_max cfg)) (\<lambda>b. Inr (a \<and> b)))"

text \<open>
  \<open>has_reviews | has_availability\<close> at one row. Without the column
  \<open>availability_365\<close>, \<open>df.get\<close> gives an empty series, which aligns to False.
\<close>

definition is_active :: "config \<Rightarrow> bool \<Rightarrow> (string \<Rightarrow> cell) \<Rightarrow> error + bool" where
  "is_active cfg has_avail r =
     bindE (cell_ge (r ''number_of_reviews'') (min_reviews cfg))
       (\<lambda>a. if has_avail
             then bindE (cell_gt (r ''availability_365'') (Fin 0)) (\<lambda>b. Inr (a \<or> b))
             else Inr a)"

definition filter_active_listings :: "table \<Rightarrow> config \<Rightarrow> error + table" where
  "filter_active_listings df cfg =
     (if \<not> has_col df ''price'' then Inl KeyError
      else bindE (filterE (price_in_bounds cfg) (rows df))
        (\<lambda>rs1. if \<not> has_col df ''number_of_reviews'' then Inl KeyError
               else bindE (filterE (is_active cfg (has_col df ''availability_365'')) rs1)
                      (\<lambda>rs2. Inr (df\<lparr>rows := rs2\<rparr>))))"

text \<open>\<open>Series.replace(0, np.nan)\<close> and \<open>Series.map({"t": True, "f": False})\<close> at one cell.\<close>

definition replace_zero :: "cell \<Rightarrow> cell" where
  "replace_zero c = (if c = Num (Fin 0) \<or> c = IntC 0 then Num NaN else c)"

definition map_tf :: "cell \<Rightarrow> error + cell" where
  "map_tf c =
     (if is_list c then Inl TypeError
      else if c = Str ''t'' then Inr (Bool True)
      else if c = Str ''f'' then Inr (Bool False)
      else Inr (Num NaN))"

text \<open>The five blocks of \<open>add_calculated_fields\<close>, each guarded by its input column.\<close>

definition add_price_per_person :: "table \<Rightarrow> error + table" where
  "add_price_per_person df =
     (if \<not> has_col df ''accommodates'' then Inr df
      else if \<not> has_col df ''price'' then Inl KeyError
      else assign_rows ''price_per_person''
             (\<lambda>r. cell_op fdiv (r ''price'') (replace_zero (r ''accommodates''))) df)"

definition add_monthly_revenue :: "table \<Rightarrow> error + table" where
  "add_monthly_revenue df =
     (if \<not> has_col df ''availability_30'' then Inr df
      else bindE (assign_rows ''est_booked_30''
                    (\<lambda>r. cell_op fsub (Num (Fin 30)) (r ''availability_30'')) df)
        (\<lambda>df1. if \<not> has_col df1 ''price'' then Inl KeyError
               else assign_rows ''est_monthly_revenue''
                      (\<lambda>r. cell_op fmul (r ''price'') (r ''est_booked_30'')) df1))"

text \<open>\<open>pd.to_datetime(column, errors="coerce")\<close> as cells: a date, or NaT.\<close>

definition parse_dates :: "pylib \<Rightarrow> cell list \<Rightarrow> cell list" where
  "parse_dates L col =
     map (\<lambda>i. case to_datetime L col i of Some d \<Rightarrow> Day d | None \<Rightarrow> Num NaN) [0..<length col]"

text \<open>\<open>(today - df["last_review_dt"]).dt.days\<close> at one cell.\<close>

definition days_since :: "pylib \<Rightarrow> cell \<Rightarrow> cell" where
  "days_since L c = (case c of Day d \<Rightarrow> Num (Fin (real_of_int (today L - d))) | _ \<Rightarrow> Num NaN)"

definition add_review_recency :: "pylib \<Rightarrow> table \<Rightarrow> error + table" where
  "add_review_recency L df =
     (if \<not> has_col df ''last_review'' then Inr df
      else (let df1 = setcol_list ''last_review_dt''
                        (parse_dates L (map (\<lambda>r. r ''last_review'') (rows df))) df
            in Inr (setcol ''days_since_review'' (\<lambda>r. days_since L (r ''last_review_dt'')) df1)))"

definition add_flag :: "string \<Rightarrow> string \<Rightarrow> table \<Rightarrow> error + table" where
  "add_flag src dst df =
     (if \<not> has_col df src then Inr df else assign_rows dst (\<lambda>r. map_tf (r src)) df)"

definition add_calculated_fields :: "pylib \<Rightarrow> table \<Rightarrow> error + table" where
  "add_calculated_fields L df =
     bindE (add_price_per_person df)
       (\<lambda>df1. bindE (add_monthly_revenue df1)
         (\<lambda>df2. bindE (add_review_recency L df2)
           (\<lambda>df3. bindE (add_flag ''host_is_superhost'' ''is_superhost'' df3)
                    (add_flag ''instant_bookable'' ''is_instant_bookable''))))"

text \<open>Step 6 of \<open>clean_listings\<close>: the parsed amenities and their number.\<close>

text \<open>\<open>df["amenities_list"].apply(len)\<close> at one cell.\<close>

definition list_len :: "cell \<Rightarrow> cell" where
  "list_len c = (case c of Lst xs \<Rightarrow> Num (Fin (real (length xs))) | _ \<Rightarrow> c)"

definition amenities_cell :: "pylib \<Rightarrow> cell \<Rightarrow> error + cell" where
  "amenities_cell L c = (case parse_amenities L c of Inl e \<Rightarrow> Inl e | Inr xs \<Rightarrow> Inr (Lst xs))"

definition add_amenities :: "pylib \<Rightarrow> table \<Rightarrow> error + table" where
  "add_amenities L df =
     (if \<not> has_col df ''amenities'' then Inr df
      else bindE (assign_rows ''amenities_list'' (\<lambda>r. amenities_cell L (r ''amenities'')) df)
             (\<lambda>df1. Inr (setcol ''amenity_count'' (\<lambda>r. list_len (r ''amenities_list'')) df1)))"

text \<open>
  \<open>clean_listings\<close>, on the configuration that \<open>load_config\<close> read. The copy of the
  input and the objects the steps create are the subject of the heap model below;
  here each step is a function from table to table.
\<close>

definition clean_listings :: "pylib \<Rightarrow> config \<Rightarrow> table \<Rightarrow> error + table" where
  "clean_listings L cfg df =
     bindE (remove_duplicates df)
       (\<lambda>d1. bindE (normalize_price L d1)
         (\<lambda>d2. bindE (handle_missing_values L d2)
           (\<lambda>d3. bindE (filter_active_listings d3 cfg)
             (\<lambda>d4. bindE (add_calculated_fields L d4) (add_amenities L)))))"

section \<open>Properties of the listings pipeline\<close>

lemma bindE_Inr: "bindE m f = Inr y \<longleftrightarrow> (\<exists>x. m = Inr x \<and> f x = Inr y)"
  by (cases m) (simp_all add: bindE_def)

lemma bindE_simps [simp]: "bindE (Inr x) f = f x" "bindE (Inl e) f = Inl e"
  by (simp_all add: bindE_def)

lemma mapE_Inr:
  "mapE f xs = Inr ys \<Longrightarrow> ys = map (\<lambda>x. projr (f x)) xs \<and> (\<forall>x \<in> set xs. f x = Inr (projr (f x)))"
  by (induction xs arbitrary: ys) (auto split: sum.splits)

lemma mapE_map: "(\<forall>x \<in> set xs. f x = Inr (g x)) \<Longrightarrow> mapE f xs = Inr (map g xs)"
  by (induction xs) auto

lemma filterE_Inr:
  "filterE p xs = Inr ys \<Longrightarrow> ys = filter (\<lambda>x. p x = Inr True) xs \<and> (\<forall>x \<in> set xs. \<exists>b. p x = Inr b)"
  by (induction xs arbitrary: ys) (auto split: sum.splits)

lemma filterE_all: "(\<forall>x \<in> set xs. p x = Inr True) \<Longrightarrow> filterE p xs = Inr xs"
  by (induction xs) auto

lemma setcol_list_map: "setcol_list c (map g (rows df)) df = setcol c g df"
  by (simp add: setcol_list_def setcol_def zip_map2 zip_same_conv_map comp_def)

lemma setcol_id:
  "has_col df c \<Longrightarrow> (\<forall>r \<in> set (rows df). f r = r c) \<Longrightarrow> setcol c f df = df"
  by (simp add: setcol_def map_idI)

lemma assign_rows_Inr:
  "assign_rows c f df = Inr df' \<Longrightarrow>
     df' = setcol c (\<lambda>r. projr (f r)) df \<and> (\<forall>r \<in> set (rows df). f r = Inr (projr (f r)))"
  by (auto simp: assign_rows_def setcol_list_map split: sum.splits dest!: mapE_Inr)

lemma assign_rows_id:
  "has_col df c \<Longrightarrow> (\<forall>r \<in> set (rows df). f r = Inr (r c)) \<Longrightarrow> assign_rows c f df = Inr df"
proof -
  assume h: "has_col df c" and a: "\<forall>r \<in> set (rows df). f r = Inr (r c)"
  from a have "mapE f (rows df) = Inr (map (\<lambda>r. r c) (rows df))" by (rule mapE_map)
  then show ?thesis using h by (simp add: assign_rows_def setcol_list_map setcol_id)
qed

text \<open>
  \<open>same_off S r r'\<close>: the row \<open>r'\<close> is \<open>r\<close> but for the columns in \<open>S\<close>;
  \<open>evolves S df df'\<close>: \<open>df'\<close> is \<open>df\<close>, row by row, but for columns in \<open>S\<close>, which may be new.
\<close>

definition same_off :: "string set \<Rightarrow> (string \<Rightarrow> cell) \<Rightarrow> (string \<Rightarrow> cell) \<Rightarrow> bool" where
  "same_off S r r' = (\<forall>c. c \<notin> S \<longrightarrow> r' c = r c)"

definition evolves :: "string set \<Rightarrow> table \<Rightarrow> table \<Rightarrow> bool" where
  "evolves S df df' =
     ((\<forall>c. has_col df c \<longrightarrow> has_col df' c) \<and> (\<forall>c. has_col df' c \<longrightarrow> has_col df c \<or> c \<in> S)
      \<and> list_all2 (same_off S) (rows df) (rows df'))"

lemma evolves_refl: "evolves S df df"
  by (simp add: evolves_def same_off_def list_all2_refl)

lemma evolves_trans: "evolves S a b \<Longrightarrow> evolves S' b c \<Longrightarrow> evolves (S \<union> S') a c"
  unfolding evolves_def same_off_def list_all2_conv_all_nth
  by auto

lemma evolves_mono: "evolves S a b \<Longrightarrow> S \<subseteq> S' \<Longrightarrow> evolves S' a b"
  unfolding evolves_def same_off_def
  by (auto elim!: list_all2_mono)

lemma evolves_setcol: "evolves {c} df (setcol c f df)"
  by (auto simp: evolves_def setcol_def has_col_def same_off_def list_all2_conv_all_nth)

lemma evolves_setcol_list:
  "length vs = length (rows df) \<Longrightarrow> evolves {c} df (setcol_list c vs df)"
  by (auto simp: evolves_def setcol_list_def has_col_def same_off_def list_all2_conv_all_nth)

lemma evolves_assign_rows: "assign_rows c f df = Inr df' \<Longrightarrow> evolves {c} df df'"
  by (auto dest!: assign_rows_Inr simp: evolves_setcol)

lemma evolves_col: "evolves S df df' \<Longrightarrow> c \<notin> S \<Longrightarrow> has_col df' c = has_col df c"
  by (auto simp: evolves_def)

lemma evolves_map:
  "evolves S df df' \<Longrightarrow> (\<And>r r'. same_off S r r' \<Longrightarrow> k r' = k r) \<Longrightarrow>
     map k (rows df') = map k (rows df)"
  by (auto simp: evolves_def list_all2_conv_all_nth intro!: nth_equalityI)

lemma evolves_all:
  "evolves S df df' \<Longrightarrow> (\<forall>r \<in> set (rows df). P r) \<Longrightarrow>
     (\<And>r r'. same_off S r r' \<Longrightarrow> P r \<Longrightarrow> P r') \<Longrightarrow> (\<forall>r \<in> set (rows df'). P r)"
proof -
  assume e: "evolves S df df'" and a: "\<forall>r \<in> set (rows df). P r"
    and p: "\<And>r r'. same_off S r r' \<Longrightarrow> P r \<Longrightarrow> P r'"
  show "\<forall>r \<in> set (rows df'). P r"
  proof
    fix r' assume "r' \<in> set (rows df')"
    then obtain i where i: "i < length (rows df')" "rows df' ! i = r'"
      by (auto simp: in_set_conv_nth)
    from e have l: "length (rows df) = length (rows df')"
      and s: "\<forall>i < length (rows df). same_off S (rows df ! i) (rows df' ! i)"
      by (simp_all add: evolves_def list_all2_conv_all_nth)
    from i l s have "same_off S (rows df ! i) r'" by auto
    moreover from i l a have "P (rows df ! i)" by auto
    ultimately show "P r'" by (rule p)
  qed
qed


lemma same_offD: "same_off S r r' \<Longrightarrow> c \<notin> S \<Longrightarrow> r' c = r c"
  by (simp add: same_off_def)

text \<open>A table whose rows are a selection of the rows of another, with the same columns.\<close>

definition sub_table :: "table \<Rightarrow> table \<Rightarrow> bool" where
  "sub_table df df' = (columns df' = columns df \<and> (\<exists>Q. rows df' = filter Q (rows df)))"

lemma sub_table_col: "sub_table df df' \<Longrightarrow> has_col df' c = has_col df c"
  by (simp add: sub_table_def has_col_def)

lemma sub_table_rows: "sub_table df df' \<Longrightarrow> set (rows df') \<subseteq> set (rows df)"
  by (auto simp: sub_table_def)

lemma sub_table_select: "sub_table df (select_rows Q df)"
  by (auto simp: sub_table_def select_rows_def)

lemma sub_table_rows_update: "sub_table df (df\<lparr>rows := filter Q (rows df)\<rparr>)"
  by (auto simp: sub_table_def)

lemma sub_table_trans: "sub_table a b \<Longrightarrow> sub_table b c \<Longrightarrow> sub_table a c"
  by (auto simp: sub_table_def)

text \<open>
  What the first four steps of \<open>clean_listings\<close> establish, each stated on the table:
  unique hashable ids; prices that are floats; no missing value in a critical column
  that exists; no missing value in an imputed column; every row within the price
  bounds and active.
\<close>

definition ids_unique :: "table \<Rightarrow> bool" where
  "ids_unique df =
     (has_col df ''id'' \<and> (\<forall>r \<in> set (rows df). \<not> is_list (r ''id''))
      \<and> distinct (map (\<lambda>r. norm_key (r ''id'')) (rows df)))"

definition prices_float :: "table \<Rightarrow> bool" where
  "prices_float df = (has_col df ''price'' \<and> (\<forall>r \<in> set (rows df). \<exists>p. r ''price'' = Num p))"

definition critical_present :: "table \<Rightarrow> bool" where
  "critical_present df =
     (\<forall>c \<in> set [''id'', ''price'', ''latitude'', ''longitude''].
        has_col df c \<longrightarrow> (\<forall>r \<in> set (rows df). \<not> isna (r c)))"

definition imputed :: "string \<Rightarrow> table \<Rightarrow> bool" where
  "imputed col df =
     (has_col df col \<longrightarrow>
        has_col df ''room_type''
        \<and> (\<forall>r \<in> set (rows df). \<not> is_list (r ''room_type'') \<and> as_float (r col) \<noteq> None
              \<and> \<not> isna (r col)))"

definition all_active :: "config \<Rightarrow> table \<Rightarrow> bool" where
  "all_active cfg df =
     (has_col df ''price'' \<and> has_col df ''number_of_reviews''
      \<and> (\<forall>r \<in> set (rows df). price_in_bounds cfg r = Inr True
            \<and> is_active cfg (has_col df ''availability_365'') r = Inr True))"

lemma ids_unique_sub:
  assumes "ids_unique df" and s: "sub_table df df'"
  shows "ids_unique df'"
proof -
  from s obtain Q where q: "rows df' = filter Q (rows df)" by (auto simp: sub_table_def)
  from assms(1) have "distinct (map (\<lambda>r. norm_key (r ''id'')) (rows df'))"
    unfolding q ids_unique_def by (simp add: distinct_map_filter)
  moreover from assms(1) have "\<forall>r \<in> set (rows df'). \<not> is_list (r ''id'')"
    unfolding q ids_unique_def by simp
  ultimately show ?thesis using assms(1) by (simp add: ids_unique_def sub_table_col [OF s])
qed

lemma ids_unique_evolves:
  assumes "ids_unique df" and e: "evolves S df df'" and "''id'' \<notin> S"
  shows "ids_unique df'"
proof -
  have m: "map (\<lambda>r. r ''id'') (rows df') = map (\<lambda>r. r ''id'') (rows df)"
    using e by (rule evolves_map) (simp add: same_off_def assms(3))
  have "map (\<lambda>r. norm_key (r ''id'')) (rows df') = map norm_key (map (\<lambda>r. r ''id'') (rows df'))"
    by (simp add: comp_def)
  with m have k: "map (\<lambda>r. norm_key (r ''id'')) (rows df') = map (\<lambda>r. norm_key (r ''id'')) (rows df)"
    by (simp add: comp_def)
  have "\<forall>r \<in> set (rows df'). \<not> is_list (r ''id'')"
    using e _ _ proof (rule evolves_all)
    show "\<forall>r \<in> set (rows df). \<not> is_list (r ''id'')"
      using assms(1) by (simp add: ids_unique_def)
  qed (simp add: same_off_def assms(3))
  with assms k show ?thesis
    by (simp add: ids_unique_def evolves_col [OF e])
qed

lemma prices_float_sub: "prices_float df \<Longrightarrow> sub_table df df' \<Longrightarrow> prices_float df'"
  unfolding prices_float_def
  by (auto simp: sub_table_col dest: sub_table_rows [THEN subsetD])

lemma prices_float_evolves:
  assumes "prices_float df" and e: "evolves S df df'" and "''price'' \<notin> S"
  shows "prices_float df'"
proof -
  have "\<forall>r \<in> set (rows df'). \<exists>p. r ''price'' = Num p"
    using e _ _ proof (rule evolves_all)
    show "\<forall>r \<in> set (rows df). \<exists>p. r ''price'' = Num p"
      using assms(1) by (simp add: prices_float_def)
  qed (simp add: same_off_def assms(3))
  with assms show ?thesis by (simp add: prices_float_def evolves_col [OF e])
qed

lemma evolves_rows:
  assumes e: "evolves S df df'" and a: "\<forall>r \<in> set (rows df). P r"
    and p: "\<And>r r'. same_off S r r' \<Longrightarrow> P r \<Longrightarrow> P r'"
  shows "\<forall>r \<in> set (rows df'). P r"
  using e a p by (rule evolves_all)

lemma critical_present_iff:
  "critical_present df \<longleftrightarrow>
     (has_col df ''id'' \<longrightarrow> (\<forall>r \<in> set (rows df). \<not> isna (r ''id'')))
     \<and> (has_col df ''price'' \<longrightarrow> (\<forall>r \<in> set (rows df). \<not> isna (r ''price'')))
     \<and> (has_col df ''latitude'' \<longrightarrow> (\<forall>r \<in> set (rows df). \<not> isna (r ''latitude'')))
     \<and> (has_col df ''longitude'' \<longrightarrow> (\<forall>r \<in> set (rows df). \<not> isna (r ''longitude'')))"
  by (simp add: critical_present_def)

lemma critical_present_sub: "critical_present df \<Longrightarrow> sub_table df df' \<Longrightarrow> critical_present df'"
  unfolding critical_present_iff
  by (auto simp: sub_table_col dest: sub_table_rows [THEN subsetD])

lemma critical_col_evolves:
  assumes e: "evolves S df df'" and x: "x \<notin> S"
    and a: "has_col df x \<longrightarrow> (\<forall>r \<in> set (rows df). \<not> isna (r x))"
  shows "has_col df' x \<longrightarrow> (\<forall>r \<in> set (rows df'). \<not> isna (r x))"
proof
  assume "has_col df' x"
  with e x have "has_col df x" by (simp add: evolves_col)
  with a have "\<forall>r \<in> set (rows df). \<not> isna (r x)" by blast
  with e show "\<forall>r \<in> set (rows df'). \<not> isna (r x)"
    by (rule evolves_rows) (simp add: same_off_def x)
qed

lemma critical_present_evolves:
  assumes c: "critical_present df" and e: "evolves S df df'"
    and s: "''id'' \<notin> S" "''price'' \<notin> S" "''latitude'' \<notin> S" "''longitude'' \<notin> S"
  shows "critical_present df'"
  using c critical_col_evolves [OF e s(1)] critical_col_evolves [OF e s(2)]
    critical_col_evolves [OF e s(3)] critical_col_evolves [OF e s(4)]
  unfolding critical_present_iff by blast

lemma imputed_sub: "imputed col df \<Longrightarrow> sub_table df df' \<Longrightarrow> imputed col df'"
  unfolding imputed_def
  by (auto simp: sub_table_col dest: sub_table_rows [THEN subsetD])

lemma imputed_evolves:
  assumes i: "imputed col df" and e: "evolves S df df'" and s: "col \<notin> S" "''room_type'' \<notin> S"
  shows "imputed col df'"
proof (cases "has_col df col")
  case False
  with e s show ?thesis by (simp add: imputed_def evolves_col)
next
  case True
  with i have a: "\<forall>r \<in> set (rows df). \<not> is_list (r ''room_type'') \<and> as_float (r col) \<noteq> None
      \<and> \<not> isna (r col)" and h: "has_col df ''room_type''"
    by (simp_all add: imputed_def)
  from e a have "\<forall>r \<in> set (rows df'). \<not> is_list (r ''room_type'') \<and> as_float (r col) \<noteq> None
      \<and> \<not> isna (r col)"
    by (rule evolves_rows) (simp add: same_off_def s)
  with h e s show ?thesis by (simp add: imputed_def evolves_col)
qed

lemma all_active_sub: "all_active cfg df \<Longrightarrow> sub_table df df' \<Longrightarrow> all_active cfg df'"
  unfolding all_active_def
  by (auto simp: sub_table_col dest: sub_table_rows [THEN subsetD])

lemma same_off_active:
  assumes "same_off S r r'" and "''price'' \<notin> S" "''number_of_reviews'' \<notin> S"
    "''availability_365'' \<notin> S"
  shows "price_in_bounds cfg r' = price_in_bounds cfg r" "is_active cfg h r' = is_active cfg h r"
proof -
  have eq: "r' ''price'' = r ''price''" "r' ''number_of_reviews'' = r ''number_of_reviews''"
    "r' ''availability_365'' = r ''availability_365''"
    using assms unfolding same_off_def by blast+
  show "price_in_bounds cfg r' = price_in_bounds cfg r"
    unfolding price_in_bounds_def eq by (rule refl)
  show "is_active cfg h r' = is_active cfg h r"
    unfolding is_active_def eq by (rule refl)
qed

lemma all_active_evolves:
  assumes a: "all_active cfg df" and e: "evolves S df df'"
    and s: "''price'' \<notin> S" "''number_of_reviews'' \<notin> S" "''availability_365'' \<notin> S"
  shows "all_active cfg df'"
proof -
  let ?h = "has_col df ''availability_365''"
  from a have "\<forall>r \<in> set (rows df). price_in_bounds cfg r = Inr True \<and> is_active cfg ?h r = Inr True"
    by (simp add: all_active_def)
  with e have "\<forall>r \<in> set (rows df'). price_in_bounds cfg r = Inr True \<and> is_active cfg ?h r = Inr True"
    by (rule evolves_rows) (simp add: same_off_active s)
  with a e s show ?thesis by (simp add: all_active_def evolves_col)
qed

subsection \<open>Step 1: duplicates\<close>

lemma drop_dups_set: "set (drop_dups k seen xs) \<subseteq> set xs"
  by (induction xs arbitrary: seen) auto

lemma drop_dups_keys:
  "distinct (map k (drop_dups k seen xs)) \<and> k ` set (drop_dups k seen xs) \<inter> set seen = {}"
proof (induction xs arbitrary: seen)
  case Nil
  then show ?case by simp
next
  case (Cons x xs)
  from Cons [of seen] Cons [of "k x # seen"] show ?case by auto
qed

lemma drop_dups_id:
  "distinct (map k xs) \<Longrightarrow> k ` set xs \<inter> set seen = {} \<Longrightarrow> drop_dups k seen xs = xs"
  by (induction xs arbitrary: seen) auto

lemma remove_duplicates_Inr:
  assumes "remove_duplicates df = Inr d"
  shows "ids_unique d \<and> columns d = columns df \<and> set (rows d) \<subseteq> set (rows df)"
proof -
  let ?k = "\<lambda>r. norm_key (r ''id'')"
  from assms have h: "has_col df ''id''" and l: "\<forall>r \<in> set (rows df). \<not> is_list (r ''id'')"
    and d: "d = df\<lparr>rows := drop_dups ?k [] (rows df)\<rparr>"
    by (auto simp: remove_duplicates_def key_col_def split: if_splits)
  from d have r: "rows d = drop_dups ?k [] (rows df)" and c: "columns d = columns df" by simp_all
  have s: "set (rows d) \<subseteq> set (rows df)" unfolding r by (rule drop_dups_set)
  have "distinct (map ?k (rows d))" unfolding r using drop_dups_keys [of ?k "[]" "rows df"] by simp
  with h l s c show ?thesis by (auto simp: ids_unique_def has_col_def)
qed

lemma remove_duplicates_fix: "ids_unique df \<Longrightarrow> remove_duplicates df = Inr df"
  by (simp add: ids_unique_def remove_duplicates_def key_col_def drop_dups_id)

subsection \<open>Step 2: prices\<close>

lemma normalize_price_Inr:
  assumes "normalize_price L df = Inr d"
  shows "evolves {''price''} df d \<and> prices_float d \<and> columns d = columns df"
proof -
  let ?f = "\<lambda>r. case clean_price L (r ''price'') of Inl e \<Rightarrow> Inl e | Inr x \<Rightarrow> Inr (Num x)"
  from assms have h: "has_col df ''price''" and a: "assign_rows ''price'' ?f df = Inr d"
    by (auto simp: normalize_price_def split: if_splits)
  from a have e: "evolves {''price''} df d" by (rule evolves_assign_rows)
  from assign_rows_Inr [OF a] have d: "d = setcol ''price'' (\<lambda>r. projr (?f r)) df"
    and ok: "\<forall>r \<in> set (rows df). ?f r = Inr (projr (?f r))" by simp_all
  have "\<exists>p. projr (?f r) = Num p" if "r \<in> set (rows df)" for r
    using ok that by (cases "clean_price L (r ''price'')") auto
  then have "\<forall>r \<in> set (rows d). \<exists>p. r ''price'' = Num p"
    unfolding d by (auto simp: setcol_def)
  moreover from h e have "has_col d ''price''" by (simp add: evolves_def)
  moreover from h d have "columns d = columns df" by (simp add: setcol_def)
  ultimately show ?thesis using e by (simp add: prices_float_def)
qed

lemma normalize_price_fix:
  assumes "prices_float df"
    and "\<forall>r \<in> set (rows df). \<forall>p. r ''price'' = Num p \<longrightarrow> clean_price L (Num p) = Inr p"
  shows "normalize_price L df = Inr df"
proof -
  let ?f = "\<lambda>r. case clean_price L (r ''price'') of Inl e \<Rightarrow> Inl e | Inr x \<Rightarrow> Inr (Num x)"
  have "?f r = Inr (r ''price'')" if "r \<in> set (rows df)" for r
  proof -
    from assms(1) that obtain p where p: "r ''price'' = Num p" by (auto simp: prices_float_def)
    with assms(2) that have "clean_price L (Num p) = Inr p" by blast
    with p show ?thesis by simp
  qed
  then have "assign_rows ''price'' ?f df = Inr df"
    using assms(1) by (intro assign_rows_id) (simp_all add: prices_float_def)
  with assms(1) show ?thesis by (simp add: normalize_price_def prices_float_def)
qed

subsection \<open>Step 3: missing values\<close>

lemma select_rows_all: "(\<forall>r \<in> set (rows df). Q r) \<Longrightarrow> select_rows Q df = df"
  by (simp add: select_rows_def)

lemma fill_by_room_type_Inr:
  assumes "fill_by_room_type L col df = Inr d" and ne: "col \<noteq> ''room_type''"
  shows "evolves {col} df d \<and> imputed col d"
proof (cases "has_col df col")
  case False
  with assms have "d = df" by (simp add: fill_by_room_type_def)
  with False show ?thesis by (simp add: evolves_refl imputed_def)
next
  case True
  let ?g = "\<lambda>r. if isna (r col)
                 then (let m = group_median L df col (r ''room_type'')
                       in Num (if m = NaN then Fin 1 else m))
                 else r col"
  from True assms(1) have rt: "has_col df ''room_type''"
    and nl: "\<forall>r \<in> set (rows df). \<not> is_list (r ''room_type'')"
    and nm: "\<forall>r \<in> set (rows df). as_float (r col) \<noteq> None"
    and d: "d = setcol col ?g df"
    by (auto simp: fill_by_room_type_def key_col_def split: if_splits)
  have e: "evolves {col} df d" unfolding d by (rule evolves_setcol)
  have g: "as_float (?g r) \<noteq> None \<and> \<not> isna (?g r)" if "r \<in> set (rows df)" for r
    using nm that by (auto simp: isna_def Let_def)
  have "\<forall>r \<in> set (rows d). \<not> is_list (r ''room_type'') \<and> as_float (r col) \<noteq> None \<and> \<not> isna (r col)"
    unfolding d using g nl ne by (auto simp: setcol_def)
  moreover from rt e have "has_col d ''room_type''" by (simp add: evolves_def)
  ultimately show ?thesis using e by (simp add: imputed_def)
qed

lemma fill_by_room_type_fix: "imputed col df \<Longrightarrow> fill_by_room_type L col df = Inr df"
  by (auto simp: imputed_def fill_by_room_type_def key_col_def setcol_id)

lemma handle_missing_values_Inr:
  assumes "handle_missing_values L df = Inr d"
  shows "\<exists>d0. sub_table df d0 \<and> evolves {''bedrooms'', ''beds''} d0 d"
    and "critical_present d" and "imputed ''bedrooms'' d" and "imputed ''beds'' d"
proof -
  define d0 where "d0 = dropna (filter (has_col df) [''id'', ''price'', ''latitude'', ''longitude'']) df"
  from assms obtain d1 where 1: "fill_by_room_type L ''bedrooms'' d0 = Inr d1"
    and 2: "fill_by_room_type L ''beds'' d1 = Inr d"
    by (auto simp: handle_missing_values_def Let_def d0_def bindE_Inr)
  have s: "sub_table df d0" unfolding d0_def dropna_def by (rule sub_table_select)
  have c0: "critical_present d0"
    unfolding critical_present_iff sub_table_col [OF s]
    by (auto simp: d0_def dropna_def select_rows_def)
  from fill_by_room_type_Inr [OF 1] have e1: "evolves {''bedrooms''} d0 d1" and i1: "imputed ''bedrooms'' d1"
    by simp_all
  from fill_by_room_type_Inr [OF 2] have e2: "evolves {''beds''} d1 d" and i2: "imputed ''beds'' d"
    by simp_all
  from evolves_trans [OF e1 e2] have e: "evolves {''bedrooms'', ''beds''} d0 d"
    by (simp add: insert_commute)
  with s show "\<exists>d0. sub_table df d0 \<and> evolves {''bedrooms'', ''beds''} d0 d" by blast
  from c0 e show "critical_present d" by (rule critical_present_evolves) simp_all
  from i1 e2 show "imputed ''bedrooms'' d" by (rule imputed_evolves) simp_all
  from i2 show "imputed ''beds'' d" .
qed

lemma handle_missing_values_fix:
  assumes "critical_present df" and "imputed ''bedrooms'' df" and "imputed ''beds'' df"
  shows "handle_missing_values L df = Inr df"
proof -
  from assms(1) have "dropna (filter (has_col df) [''id'', ''price'', ''latitude'', ''longitude'']) df = df"
    unfolding dropna_def by (intro select_rows_all) (auto simp: critical_present_iff)
  with assms(2,3) show ?thesis
    by (simp add: handle_missing_values_def Let_def fill_by_room_type_fix)
qed

subsection \<open>Step 4: active listings\<close>

lemma filter_active_listings_Inr:
  assumes "filter_active_listings df cfg = Inr d"
  shows "sub_table df d \<and> all_active cfg d"
proof -
  let ?h = "has_col df ''availability_365''"
  from assms obtain rs1 where p: "has_col df ''price''" and n: "has_col df ''number_of_reviews''"
    and 1: "filterE (price_in_bounds cfg) (rows df) = Inr rs1"
    and 2: "filterE (is_active cfg ?h) rs1 = Inr (rows d)" and c: "columns d = columns df"
    by (auto simp: filter_active_listings_def bindE_Inr split: if_splits)
  from filterE_Inr [OF 1] have r1: "rs1 = filter (\<lambda>r. price_in_bounds cfg r = Inr True) (rows df)"
    by simp
  from filterE_Inr [OF 2] have r2: "rows d = filter (\<lambda>r. is_active cfg ?h r = Inr True) rs1"
    by simp
  from r1 r2 c have s: "sub_table df d" by (auto simp: sub_table_def)
  from r1 r2 p n s show ?thesis by (auto simp: all_active_def sub_table_col)
qed

lemma filter_active_listings_fix: "all_active cfg df \<Longrightarrow> filter_active_listings df cfg = Inr df"
  by (simp add: all_active_def filter_active_listings_def filterE_all)

subsection \<open>Derived columns\<close>

text \<open>
  A step that writes the columns \<open>W\<close> and reads or writes only the columns \<open>C\<close> is
  well behaved when running it again on its own result changes nothing, and when a
  table it leaves unchanged is still left unchanged after other columns were changed.
\<close>

definition step_ok :: "(table \<Rightarrow> error + table) \<Rightarrow> string set \<Rightarrow> string set \<Rightarrow> bool" where
  "step_ok X W C =
     ((\<forall>df d. X df = Inr d \<longrightarrow> evolves W df d \<and> X d = Inr d)
      \<and> (\<forall>df d S. X df = Inr df \<longrightarrow> evolves S df d \<longrightarrow> S \<inter> C = {} \<longrightarrow> X d = Inr d))"

lemma step_ok_evolves: "step_ok X W C \<Longrightarrow> X df = Inr d \<Longrightarrow> evolves W df d"
  unfolding step_ok_def by blast

lemma step_ok_idem: "step_ok X W C \<Longrightarrow> X df = Inr d \<Longrightarrow> X d = Inr d"
  unfolding step_ok_def by blast

lemma step_ok_stable:
  "step_ok X W C \<Longrightarrow> X df = Inr df \<Longrightarrow> evolves S df d \<Longrightarrow> S \<inter> C = {} \<Longrightarrow> X d = Inr d"
  unfolding step_ok_def by blast

lemma step_ok_compose:
  assumes x: "step_ok X W C" and y: "step_ok Y W' C'" and dj: "W' \<inter> C = {}"
  shows "step_ok (\<lambda>df. bindE (X df) Y) (W \<union> W') (C \<union> C')"
  unfolding step_ok_def
proof (intro conjI allI impI)
  fix df d assume "bindE (X df) Y = Inr d"
  then obtain d1 where 1: "X df = Inr d1" and 2: "Y d1 = Inr d" unfolding bindE_Inr by blast
  note e1 = step_ok_evolves [OF x 1] and i1 = step_ok_idem [OF x 1]
  note e2 = step_ok_evolves [OF y 2] and i2 = step_ok_idem [OF y 2]
  from e1 e2 show "evolves (W \<union> W') df d" by (rule evolves_trans)
  from step_ok_stable [OF x i1 e2 dj] i2 show "bindE (X d) Y = Inr d" by simp
next
  fix df d S
  assume f: "bindE (X df) Y = Inr df" and e: "evolves S df d" and s: "S \<inter> (C \<union> C') = {}"
  from f obtain d1 where 1: "X df = Inr d1" and 2: "Y d1 = Inr df" unfolding bindE_Inr by blast
  note i1 = step_ok_idem [OF x 1]
  note e2 = step_ok_evolves [OF y 2] and i2 = step_ok_idem [OF y 2]
  note xf = step_ok_stable [OF x i1 e2 dj]
  from s have sc: "S \<inter> C = {}" and sc': "S \<inter> C' = {}" by blast+
  from step_ok_stable [OF x xf e sc] step_ok_stable [OF y i2 e sc']
  show "bindE (X d) Y = Inr d" by simp
qed

lemma map_fix: "map f xs = xs \<Longrightarrow> x \<in> set xs \<Longrightarrow> f x = x"
  by (induction xs) auto

lemma assign_rows_fix_iff:
  "assign_rows c f df = Inr df \<longleftrightarrow> has_col df c \<and> (\<forall>r \<in> set (rows df). f r = Inr (r c))"
proof
  assume a: "assign_rows c f df = Inr df"
  let ?g = "\<lambda>r. projr (f r)"
  from assign_rows_Inr [OF a] have d: "df = setcol c ?g df"
    and ok: "\<forall>r \<in> set (rows df). f r = Inr (?g r)" by simp_all
  have dc: "columns df = columns (setcol c ?g df)" and dr: "rows df = rows (setcol c ?g df)"
    using d by (rule arg_cong)+
  have h: "has_col df c"
  proof (rule ccontr)
    assume "\<not> has_col df c"
    with dc have "columns df = columns df @ [c]" by (simp add: setcol_def)
    then show False by simp
  qed
  from dr have "map (\<lambda>r. r(c := ?g r)) (rows df) = rows df" by (simp add: setcol_def)
  then have u: "\<forall>r \<in> set (rows df). r(c := ?g r) = r" by (auto dest: map_fix)
  have "\<forall>r \<in> set (rows df). ?g r = r c"
  proof
    fix r assume "r \<in> set (rows df)"
    with u have "r(c := ?g r) = r" by blast
    then have "(r(c := ?g r)) c = r c" by (rule arg_cong)
    then show "?g r = r c" by simp
  qed
  with ok h show "has_col df c \<and> (\<forall>r \<in> set (rows df). f r = Inr (r c))" by simp
next
  assume "has_col df c \<and> (\<forall>r \<in> set (rows df). f r = Inr (r c))"
  then show "assign_rows c f df = Inr df" by (simp add: assign_rows_id)
qed

text \<open>\<open>reads_only R f\<close>: the value \<open>f\<close> computes from a row depends on the columns \<open>R\<close> only.\<close>

definition reads_only :: "string set \<Rightarrow> ((string \<Rightarrow> cell) \<Rightarrow> 'a) \<Rightarrow> bool" where
  "reads_only R f = (\<forall>r r'. (\<forall>x \<in> R. r' x = r x) \<longrightarrow> f r' = f r)"

lemma assign_rows_after:
  assumes a: "assign_rows c f df = Inr d" and ro: "reads_only R f" and c: "c \<notin> R"
  shows "has_col d c \<and> (\<forall>r \<in> set (rows d). f r = Inr (r c))"
proof -
  let ?g = "\<lambda>r. projr (f r)"
  from assign_rows_Inr [OF a] have d: "d = setcol c ?g df"
    and ok: "\<forall>r \<in> set (rows df). f r = Inr (?g r)" by simp_all
  have "f (r(c := v)) = f r" for r v
    using ro c unfolding reads_only_def by (metis fun_upd_other)
  with ok have "\<forall>r \<in> set (rows d). f r = Inr (r c)" unfolding d by (simp add: setcol_def)
  moreover have "has_col d c" unfolding d by (simp add: setcol_def has_col_def)
  ultimately show ?thesis by simp
qed

lemma row_fix_evolves:
  assumes f: "has_col df c \<and> (\<forall>r \<in> set (rows df). f r = Inr (r c))"
    and e: "evolves S df d" and c: "c \<notin> S" and ro: "reads_only R f" and dj: "S \<inter> R = {}"
  shows "has_col d c \<and> (\<forall>r \<in> set (rows d). f r = Inr (r c))"
proof -
  have p: "f r' = Inr (r' c)" if "same_off S r r'" "f r = Inr (r c)" for r r'
  proof -
    from that(1) dj have "\<forall>x \<in> R. r' x = r x" unfolding same_off_def by blast
    with ro have "f r' = f r" unfolding reads_only_def by blast
    moreover from that(1) c have "r' c = r c" unfolding same_off_def by blast
    ultimately show ?thesis using that(2) by simp
  qed
  from f have "\<forall>r \<in> set (rows df). f r = Inr (r c)" by simp
  with e have "\<forall>r \<in> set (rows d). f r = Inr (r c)" by (rule evolves_rows) (rule p)
  with f e show ?thesis by (simp add: evolves_def)
qed

text \<open>
  An assignment \<open>df[c] = f(row)\<close> inside \<open>if guard in df.columns\<close>, which reads the
  columns \<open>need\<close> with \<open>df[...]\<close> first (KeyError when one is missing).
\<close>

definition guarded_assign ::
  "string \<Rightarrow> string list \<Rightarrow> string \<Rightarrow> ((string \<Rightarrow> cell) \<Rightarrow> error + cell) \<Rightarrow> table \<Rightarrow> error + table" where
  "guarded_assign g need c f df =
     (if \<not> has_col df g then Inr df
      else if \<exists>n \<in> set need. \<not> has_col df n then Inl KeyError
      else assign_rows c f df)"

lemma guarded_assign_ok:
  assumes ro: "reads_only R f" and c: "c \<notin> R"
  shows "step_ok (guarded_assign g need c f) {c} (insert g (insert c (set need \<union> R)))"
  unfolding step_ok_def
proof (intro conjI allI impI)
  fix df d assume a: "guarded_assign g need c f df = Inr d"
  show "evolves {c} df d"
    using a by (auto simp: guarded_assign_def evolves_refl evolves_assign_rows split: if_splits)
  show "guarded_assign g need c f d = Inr d"
  proof (cases "has_col df g")
    case False
    with a show ?thesis by (simp add: guarded_assign_def)
  next
    case True
    with a have n: "\<forall>n \<in> set need. has_col df n" and ar: "assign_rows c f df = Inr d"
      by (auto simp: guarded_assign_def split: if_splits)
    from ar have e: "evolves {c} df d" by (rule evolves_assign_rows)
    with n True have "has_col d g" "\<forall>n \<in> set need. has_col d n" by (auto simp: evolves_def)
    moreover from assign_rows_after [OF ar ro c] have "assign_rows c f d = Inr d"
      by (simp add: assign_rows_fix_iff)
    ultimately show ?thesis by (simp add: guarded_assign_def)
  qed
next
  fix df d S
  assume a: "guarded_assign g need c f df = Inr df" and e: "evolves S df d"
    and s: "S \<inter> insert g (insert c (set need \<union> R)) = {}"
  from s have gs: "g \<notin> S" and cs: "c \<notin> S" and ns: "\<forall>n \<in> set need. n \<notin> S" and rs: "S \<inter> R = {}"
    by auto
  show "guarded_assign g need c f d = Inr d"
  proof (cases "has_col df g")
    case False
    with e gs have "\<not> has_col d g" by (simp add: evolves_col)
    then show ?thesis by (simp add: guarded_assign_def)
  next
    case True
    with a have n: "\<forall>n \<in> set need. has_col df n" and ar: "assign_rows c f df = Inr df"
      by (auto simp: guarded_assign_def split: if_splits)
    from ar have "has_col df c \<and> (\<forall>r \<in> set (rows df). f r = Inr (r c))"
      by (simp add: assign_rows_fix_iff)
    from row_fix_evolves [OF this e cs ro rs] have "assign_rows c f d = Inr d"
      by (simp add: assign_rows_fix_iff)
    moreover from n ns e True gs have "has_col d g" "\<forall>n \<in> set need. has_col d n"
      by (auto simp: evolves_col)
    ultimately show ?thesis by (simp add: guarded_assign_def)
  qed
qed

text \<open>
  An assignment \<open>df[c] = h(df[src])\<close> of a column computed from one whole column,
  inside \<open>if guard in df.columns\<close>.
\<close>

definition guarded_column ::
  "string \<Rightarrow> string \<Rightarrow> string \<Rightarrow> (cell list \<Rightarrow> cell list) \<Rightarrow> table \<Rightarrow> error + table" where
  "guarded_column g c src h df =
     (if \<not> has_col df g then Inr df
      else Inr (setcol_list c (h (map (\<lambda>r. r src) (rows df))) df))"

lemma setcol_list_col:
  assumes "length vs = length (rows df)"
  shows "map (\<lambda>r. r c) (rows (setcol_list c vs df)) = vs"
    and "x \<noteq> c \<Longrightarrow> map (\<lambda>r. r x) (rows (setcol_list c vs df)) = map (\<lambda>r. r x) (rows df)"
  using assms by (auto simp: setcol_list_def intro!: nth_equalityI)

lemma setcol_list_id:
  assumes "has_col df c" and "map (\<lambda>r. r c) (rows df) = vs"
  shows "setcol_list c vs df = df"
proof -
  from assms(2) have "setcol_list c vs df = setcol c (\<lambda>r. r c) df"
    using setcol_list_map [of c "\<lambda>r. r c" df] by simp
  with assms(1) show ?thesis by (simp add: setcol_id)
qed

lemma setcol_list_fix:
  assumes l: "length vs = length (rows df)" and f: "setcol_list c vs df = df"
  shows "has_col df c \<and> map (\<lambda>r. r c) (rows df) = vs"
proof -
  have dc: "columns (setcol_list c vs df) = columns df" and dr: "rows (setcol_list c vs df) = rows df"
    using f by simp_all
  have h: "has_col df c"
  proof (rule ccontr)
    assume "\<not> has_col df c"
    with dc have "columns df @ [c] = columns df" by (simp add: setcol_list_def)
    then show False by simp
  qed
  from setcol_list_col(1) [OF l, of c] have "map (\<lambda>r. r c) (rows df) = vs" unfolding dr .
  with h show ?thesis by simp
qed

lemma guarded_column_ok:
  assumes len: "\<And>xs. length (h xs) = length xs" and ne: "c \<noteq> src"
  shows "step_ok (guarded_column g c src h) {c} {g, c, src}"
  unfolding step_ok_def
proof (intro conjI allI impI)
  fix df d assume a: "guarded_column g c src h df = Inr d"
  show e: "evolves {c} df d"
    using a by (auto simp: guarded_column_def evolves_refl evolves_setcol_list len split: if_splits)
  show "guarded_column g c src h d = Inr d"
  proof (cases "has_col df g")
    case False
    with a show ?thesis by (simp add: guarded_column_def)
  next
    case True
    let ?col = "map (\<lambda>r. r src) (rows df)"
    from True a have d: "d = setcol_list c (h ?col) df" by (simp add: guarded_column_def)
    have l: "length (h ?col) = length (rows df)" by (simp add: len)
    from setcol_list_col [OF l] ne have s: "map (\<lambda>r. r src) (rows d) = ?col"
      and v: "map (\<lambda>r. r c) (rows d) = h ?col" unfolding d by simp_all
    have "has_col d c" unfolding d by (simp add: setcol_list_def has_col_def)
    then have "setcol_list c (h ?col) d = d" using v by (rule setcol_list_id)
    moreover from True e have "has_col d g" by (simp add: evolves_def)
    ultimately show ?thesis by (simp add: guarded_column_def s)
  qed
next
  fix df d S
  assume a: "guarded_column g c src h df = Inr df" and e: "evolves S df d"
    and s: "S \<inter> {g, c, src} = {}"
  from s have gs: "g \<notin> S" and cs: "c \<notin> S" and ss: "src \<notin> S" by auto
  show "guarded_column g c src h d = Inr d"
  proof (cases "has_col df g")
    case False
    with e gs have "\<not> has_col d g" by (simp add: evolves_col)
    then show ?thesis by (simp add: guarded_column_def)
  next
    case True
    let ?col = "map (\<lambda>r. r src) (rows df)"
    from True a have f: "setcol_list c (h ?col) df = df" by (simp add: guarded_column_def)
    have l: "length (h ?col) = length (rows df)" by (simp add: len)
    from setcol_list_fix [OF l f] have hc: "has_col df c" and v: "map (\<lambda>r. r c) (rows df) = h ?col"
      by simp_all
    have ms: "map (\<lambda>r. r src) (rows d) = ?col"
      using e by (rule evolves_map) (simp add: same_off_def ss)
    have mc: "map (\<lambda>r. r c) (rows d) = map (\<lambda>r. r c) (rows df)"
      using e by (rule evolves_map) (simp add: same_off_def cs)
    from hc e have "has_col d c" by (simp add: evolves_def)
    then have "setcol_list c (h ?col) d = d" using mc v by (intro setcol_list_id) simp_all
    moreover from True e have "has_col d g" by (simp add: evolves_def)
    ultimately show ?thesis by (simp add: guarded_column_def ms)
  qed
qed

lemma step_ok_mono:
  assumes "step_ok X W C" and "W \<subseteq> W'" and "C \<subseteq> C'"
  shows "step_ok X W' C'"
  unfolding step_ok_def
proof (intro conjI allI impI)
  fix df d assume a: "X df = Inr d"
  from step_ok_evolves [OF assms(1) a] assms(2) show "evolves W' df d" by (rule evolves_mono)
  from assms(1) a show "X d = Inr d" by (rule step_ok_idem)
next
  fix df d S assume a: "X df = Inr df" and e: "evolves S df d" and s: "S \<inter> C' = {}"
  from s assms(3) have "S \<inter> C = {}" by blast
  with assms(1) a e show "X d = Inr d" by (rule step_ok_stable)
qed

lemma assign_rows_total: "assign_rows c (\<lambda>r. Inr (g r)) df = Inr (setcol c g df)"
proof -
  have "mapE (\<lambda>r. Inr (g r)) (rows df) = Inr (map g (rows df))" by (rule mapE_map) simp
  then show ?thesis by (simp add: assign_rows_def setcol_list_map)
qed

lemma bindE_cong_Inr: "(\<And>x. m = Inr x \<Longrightarrow> f x = g x) \<Longrightarrow> bindE m f = bindE m g"
  by (cases m) simp_all

lemma assign_rows_keeps: "assign_rows c f df = Inr d \<Longrightarrow> has_col df x \<Longrightarrow> has_col d x"
  by (drule evolves_assign_rows) (simp add: evolves_def)

lemma add_price_per_person_eq:
  "add_price_per_person =
     guarded_assign ''accommodates'' [''price''] ''price_per_person''
       (\<lambda>r. cell_op fdiv (r ''price'') (replace_zero (r ''accommodates'')))"
  by (rule ext) (simp add: add_price_per_person_def guarded_assign_def)

lemma add_monthly_revenue_eq:
  "add_monthly_revenue =
     (\<lambda>df. bindE (guarded_assign ''availability_30'' [] ''est_booked_30''
                    (\<lambda>r. cell_op fsub (Num (Fin 30)) (r ''availability_30'')) df)
             (guarded_assign ''availability_30'' [''price''] ''est_monthly_revenue''
                    (\<lambda>r. cell_op fmul (r ''price'') (r ''est_booked_30''))))"
proof (rule ext)
  fix df
  show "add_monthly_revenue df =
     bindE (guarded_assign ''availability_30'' [] ''est_booked_30''
                    (\<lambda>r. cell_op fsub (Num (Fin 30)) (r ''availability_30'')) df)
             (guarded_assign ''availability_30'' [''price''] ''est_monthly_revenue''
                    (\<lambda>r. cell_op fmul (r ''price'') (r ''est_booked_30'')))"
  proof (cases "has_col df ''availability_30''")
    case False
    then show ?thesis by (simp add: add_monthly_revenue_def guarded_assign_def)
  next
    case True
    then show ?thesis
      unfolding add_monthly_revenue_def guarded_assign_def
      by (auto intro!: bindE_cong_Inr dest: assign_rows_keeps)
  qed
qed

lemma add_review_recency_eq:
  "add_review_recency L =
     (\<lambda>df. bindE (guarded_column ''last_review'' ''last_review_dt'' ''last_review'' (parse_dates L) df)
             (guarded_assign ''last_review'' [] ''days_since_review''
                    (\<lambda>r. Inr (days_since L (r ''last_review_dt'')))))"
proof (rule ext)
  fix df
  have "has_col (setcol_list ''last_review_dt'' vs df) ''last_review''"
    if "has_col df ''last_review''" for vs
    using that by (simp add: setcol_list_def has_col_def)
  then show "add_review_recency L df =
     bindE (guarded_column ''last_review'' ''last_review_dt'' ''last_review'' (parse_dates L) df)
             (guarded_assign ''last_review'' [] ''days_since_review''
                    (\<lambda>r. Inr (days_since L (r ''last_review_dt''))))"
    by (simp add: add_review_recency_def guarded_column_def guarded_assign_def Let_def
        assign_rows_total)
qed

lemma add_flag_eq: "add_flag src dst = guarded_assign src [] dst (\<lambda>r. map_tf (r src))"
  by (rule ext) (simp add: add_flag_def guarded_assign_def)

lemma add_amenities_eq:
  "add_amenities L =
     (\<lambda>df. bindE (guarded_assign ''amenities'' [] ''amenities_list''
                    (\<lambda>r. amenities_cell L (r ''amenities'')) df)
             (guarded_assign ''amenities'' [] ''amenity_count''
                    (\<lambda>r. Inr (list_len (r ''amenities_list'')))))"
proof (rule ext)
  fix df
  show "add_amenities L df =
     bindE (guarded_assign ''amenities'' [] ''amenities_list''
                    (\<lambda>r. amenities_cell L (r ''amenities'')) df)
             (guarded_assign ''amenities'' [] ''amenity_count''
                    (\<lambda>r. Inr (list_len (r ''amenities_list''))))"
  proof (cases "has_col df ''amenities''")
    case False
    then show ?thesis by (simp add: add_amenities_def guarded_assign_def)
  next
    case True
    then show ?thesis
      unfolding add_amenities_def guarded_assign_def
      by (auto intro!: bindE_cong_Inr dest: assign_rows_keeps simp: assign_rows_total)
  qed
qed

lemma add_price_per_person_ok:
  "step_ok add_price_per_person {''price_per_person''}
     {''accommodates'', ''price'', ''price_per_person''}"
proof -
  have "reads_only {''price'', ''accommodates''}
      (\<lambda>r. cell_op fdiv (r ''price'') (replace_zero (r ''accommodates'')))"
    by (simp add: reads_only_def)
  from guarded_assign_ok [OF this, of "''price_per_person''" "''accommodates''" "[''price'']"]
  show ?thesis unfolding add_price_per_person_eq by (rule step_ok_mono) auto
qed

lemma add_monthly_revenue_ok:
  "step_ok add_monthly_revenue {''est_booked_30'', ''est_monthly_revenue''}
     {''availability_30'', ''price'', ''est_booked_30'', ''est_monthly_revenue''}"
proof -
  have 1: "reads_only {''availability_30''} (\<lambda>r. cell_op fsub (Num (Fin 30)) (r ''availability_30''))"
    by (simp add: reads_only_def)
  have 2: "reads_only {''price'', ''est_booked_30''}
      (\<lambda>r. cell_op fmul (r ''price'') (r ''est_booked_30''))"
    by (simp add: reads_only_def)
  note a = guarded_assign_ok [OF 1, of "''est_booked_30''" "''availability_30''" "[]"]
  note b = guarded_assign_ok [OF 2, of "''est_monthly_revenue''" "''availability_30''" "[''price'']"]
  have "step_ok add_monthly_revenue ({''est_booked_30''} \<union> {''est_monthly_revenue''})
     (insert ''availability_30'' (insert ''est_booked_30'' (set [] \<union> {''availability_30''}))
      \<union> insert ''availability_30'' (insert ''est_monthly_revenue''
           (set [''price''] \<union> {''price'', ''est_booked_30''})))"
    unfolding add_monthly_revenue_eq by (rule step_ok_compose [OF a b]) simp_all
  then show ?thesis by (rule step_ok_mono) auto
qed

lemma parse_dates_length: "length (parse_dates L xs) = length xs"
  by (simp add: parse_dates_def)

lemma add_review_recency_ok:
  "step_ok (add_review_recency L) {''last_review_dt'', ''days_since_review''}
     {''last_review'', ''last_review_dt'', ''days_since_review''}"
proof -
  have 2: "reads_only {''last_review_dt''} (\<lambda>r. Inr (days_since L (r ''last_review_dt'')) :: error + cell)"
    by (simp add: reads_only_def)
  have a: "step_ok (guarded_column ''last_review'' ''last_review_dt'' ''last_review'' (parse_dates L))
      {''last_review_dt''} {''last_review'', ''last_review_dt'', ''last_review''}"
    by (rule guarded_column_ok) (simp_all add: parse_dates_length)
  note b = guarded_assign_ok [OF 2, of "''days_since_review''" "''last_review''" "[]"]
  have "step_ok (add_review_recency L) ({''last_review_dt''} \<union> {''days_since_review''})
     ({''last_review'', ''last_review_dt'', ''last_review''}
      \<union> insert ''last_review'' (insert ''days_since_review'' (set [] \<union> {''last_review_dt''})))"
    unfolding add_review_recency_eq by (rule step_ok_compose [OF a b]) simp_all
  then show ?thesis by (rule step_ok_mono) auto
qed

lemma add_flag_ok: "dst \<noteq> src \<Longrightarrow> step_ok (add_flag src dst) {dst} {src, dst}"
proof -
  assume ne: "dst \<noteq> src"
  have "reads_only {src} (\<lambda>r. map_tf (r src))" by (simp add: reads_only_def)
  from guarded_assign_ok [OF this, of dst src "[]"] ne
  show ?thesis unfolding add_flag_eq by (auto elim!: step_ok_mono)
qed

lemma add_amenities_ok:
  "step_ok (add_amenities L) {''amenities_list'', ''amenity_count''}
     {''amenities'', ''amenities_list'', ''amenity_count''}"
proof -
  have 1: "reads_only {''amenities''} (\<lambda>r. amenities_cell L (r ''amenities''))"
    by (simp add: reads_only_def)
  have 2: "reads_only {''amenities_list''} (\<lambda>r. Inr (list_len (r ''amenities_list'')) :: error + cell)"
    by (simp add: reads_only_def)
  note a = guarded_assign_ok [OF 1, of "''amenities_list''" "''amenities''" "[]"]
  note b = guarded_assign_ok [OF 2, of "''amenity_count''" "''amenities''" "[]"]
  have "step_ok (add_amenities L) ({''amenities_list''} \<union> {''amenity_count''})
     (insert ''amenities'' (insert ''amenities_list'' (set [] \<union> {''amenities''}))
      \<union> insert ''amenities'' (insert ''amenity_count'' (set [] \<union> {''amenities_list''})))"
    unfolding add_amenities_eq by (rule step_ok_compose [OF a b]) simp_all
  then show ?thesis by (rule step_ok_mono) auto
qed

text \<open>The columns that steps 5 and 6 of \<open>clean_listings\<close> write.\<close>

definition derived_columns :: "string set" where
  "derived_columns =
     {''price_per_person'', ''est_booked_30'', ''est_monthly_revenue'', ''last_review_dt'',
      ''days_since_review'', ''is_superhost'', ''is_instant_bookable'', ''amenities_list'',
      ''amenity_count''}"

definition add_derived :: "pylib \<Rightarrow> table \<Rightarrow> error + table" where
  "add_derived L df = bindE (add_calculated_fields L df) (add_amenities L)"

lemma add_derived_ok: "step_ok (add_derived L) derived_columns UNIV"
proof -
  note f4 = add_flag_ok [of "''is_superhost''" "''host_is_superhost''"]
  note f5 = add_flag_ok [of "''is_instant_bookable''" "''instant_bookable''"]
  have s45: "step_ok (\<lambda>df. bindE (add_flag ''host_is_superhost'' ''is_superhost'' df)
       (add_flag ''instant_bookable'' ''is_instant_bookable''))
     ({''is_superhost''} \<union> {''is_instant_bookable''})
     ({''host_is_superhost'', ''is_superhost''} \<union> {''instant_bookable'', ''is_instant_bookable''})"
    by (rule step_ok_compose [OF f4 f5]) simp_all
  have s345: "step_ok (\<lambda>df. bindE (add_review_recency L df)
       (\<lambda>df. bindE (add_flag ''host_is_superhost'' ''is_superhost'' df)
       (add_flag ''instant_bookable'' ''is_instant_bookable'')))
     ({''last_review_dt'', ''days_since_review''} \<union> ({''is_superhost''} \<union> {''is_instant_bookable''}))
     ({''last_review'', ''last_review_dt'', ''days_since_review''}
       \<union> ({''host_is_superhost'', ''is_superhost''} \<union> {''instant_bookable'', ''is_instant_bookable''}))"
    by (rule step_ok_compose [OF add_review_recency_ok s45]) simp_all
  have s2345: "step_ok (\<lambda>df. bindE (add_monthly_revenue df) (\<lambda>df. bindE (add_review_recency L df)
       (\<lambda>df. bindE (add_flag ''host_is_superhost'' ''is_superhost'' df)
       (add_flag ''instant_bookable'' ''is_instant_bookable''))))
     ({''est_booked_30'', ''est_monthly_revenue''}
       \<union> ({''last_review_dt'', ''days_since_review''} \<union> ({''is_superhost''} \<union> {''is_instant_bookable''})))
     ({''availability_30'', ''price'', ''est_booked_30'', ''est_monthly_revenue''}
       \<union> ({''last_review'', ''last_review_dt'', ''days_since_review''}
       \<union> ({''host_is_superhost'', ''is_superhost''} \<union> {''instant_bookable'', ''is_instant_bookable''})))"
    by (rule step_ok_compose [OF add_monthly_revenue_ok s345]) simp_all
  have s12345: "step_ok (\<lambda>df. bindE (add_price_per_person df) (\<lambda>df. bindE (add_monthly_revenue df)
       (\<lambda>df. bindE (add_review_recency L df)
       (\<lambda>df. bindE (add_flag ''host_is_superhost'' ''is_superhost'' df)
       (add_flag ''instant_bookable'' ''is_instant_bookable'')))))
     ({''price_per_person''} \<union> ({''est_booked_30'', ''est_monthly_revenue''}
       \<union> ({''last_review_dt'', ''days_since_review''} \<union> ({''is_superhost''} \<union> {''is_instant_bookable''}))))
     ({''accommodates'', ''price'', ''price_per_person''}
       \<union> ({''availability_30'', ''price'', ''est_booked_30'', ''est_monthly_revenue''}
       \<union> ({''last_review'', ''last_review_dt'', ''days_since_review''}
       \<union> ({''host_is_superhost'', ''is_superhost''} \<union> {''instant_bookable'', ''is_instant_bookable''}))))"
    by (rule step_ok_compose [OF add_price_per_person_ok s2345]) simp_all
  have e: "add_calculated_fields L = (\<lambda>df. bindE (add_price_per_person df) (\<lambda>df. bindE (add_monthly_revenue df)
       (\<lambda>df. bindE (add_review_recency L df)
       (\<lambda>df. bindE (add_flag ''host_is_superhost'' ''is_superhost'' df)
       (add_flag ''instant_bookable'' ''is_instant_bookable'')))))"
    by (rule ext) (simp add: add_calculated_fields_def)
  have e2: "add_derived L = (\<lambda>df. bindE (add_calculated_fields L df) (add_amenities L))"
    by (rule ext) (simp add: add_derived_def)
  show ?thesis
    unfolding e2
    by (rule step_ok_mono, rule step_ok_compose [OF s12345 [folded e] add_amenities_ok])
       (simp_all add: derived_columns_def)
qed

lemma fill_by_room_type_cols: "fill_by_room_type L col df = Inr d \<Longrightarrow> columns d = columns df"
  by (auto simp: fill_by_room_type_def bindE_Inr setcol_def split: if_splits)

lemma handle_missing_values_cols:
  assumes "handle_missing_values L df = Inr d"
  shows "columns d = columns df"
proof -
  from assms obtain d1 where
    1: "fill_by_room_type L ''bedrooms''
          (dropna (filter (has_col df) [''id'', ''price'', ''latitude'', ''longitude'']) df) = Inr d1"
    and 2: "fill_by_room_type L ''beds'' d1 = Inr d"
    unfolding handle_missing_values_def Let_def bindE_Inr by blast
  from fill_by_room_type_cols [OF 1] fill_by_room_type_cols [OF 2]
  show ?thesis by (simp add: dropna_def select_rows_def)
qed

text \<open>What \<open>clean_listings\<close> guarantees of the table it returns.\<close>

definition cleaned :: "config \<Rightarrow> table \<Rightarrow> bool" where
  "cleaned cfg df =
     (ids_unique df \<and> prices_float df \<and> critical_present df \<and> imputed ''bedrooms'' df
      \<and> imputed ''beds'' df \<and> all_active cfg df)"

lemma cleaned_evolves:
  assumes c: "cleaned cfg df" and e: "evolves derived_columns df d"
  shows "cleaned cfg d"
proof -
  have n: "''id'' \<notin> derived_columns" "''price'' \<notin> derived_columns"
    "''latitude'' \<notin> derived_columns" "''longitude'' \<notin> derived_columns"
    "''bedrooms'' \<notin> derived_columns" "''beds'' \<notin> derived_columns"
    "''room_type'' \<notin> derived_columns" "''number_of_reviews'' \<notin> derived_columns"
    "''availability_365'' \<notin> derived_columns"
    by (simp_all add: derived_columns_def)
  from c have "ids_unique df" "prices_float df" "critical_present df" "imputed ''bedrooms'' df"
    "imputed ''beds'' df" "all_active cfg df" by (simp_all add: cleaned_def)
  then have "ids_unique d" "prices_float d" "critical_present d" "imputed ''bedrooms'' d"
    "imputed ''beds'' d" "all_active cfg d"
    using e n
    by (blast intro: ids_unique_evolves prices_float_evolves critical_present_evolves
        imputed_evolves all_active_evolves)+
  then show ?thesis by (simp add: cleaned_def)
qed

lemma clean_listings_cleaned:
  assumes "clean_listings L cfg df = Inr out"
  shows "cleaned cfg out" and "add_derived L out = Inr out"
    and "\<And>c. c \<notin> derived_columns \<Longrightarrow> has_col out c = has_col df c"
proof -
  from assms obtain d1 d2 d3 d4 where 1: "remove_duplicates df = Inr d1"
    and 2: "normalize_price L d1 = Inr d2" and 3: "handle_missing_values L d2 = Inr d3"
    and 4: "filter_active_listings d3 cfg = Inr d4" and 5: "add_derived L d4 = Inr out"
    unfolding clean_listings_def add_derived_def bindE_Inr by blast
  from remove_duplicates_Inr [OF 1] have u1: "ids_unique d1" and c1: "columns d1 = columns df"
    by simp_all
  from normalize_price_Inr [OF 2] have e2: "evolves {''price''} d1 d2" and p2: "prices_float d2"
    and c2: "columns d2 = columns d1" by simp_all
  from u1 e2 have u2: "ids_unique d2" by (rule ids_unique_evolves) simp
  from handle_missing_values_Inr [OF 3] obtain d0 where s0: "sub_table d2 d0"
    and e3: "evolves {''bedrooms'', ''beds''} d0 d3" and k3: "critical_present d3"
    and b3: "imputed ''bedrooms'' d3" "imputed ''beds'' d3" by blast
  from u2 s0 have "ids_unique d0" by (rule ids_unique_sub)
  then have u3: "ids_unique d3" using e3 by (rule ids_unique_evolves) simp
  from p2 s0 have "prices_float d0" by (rule prices_float_sub)
  then have p3: "prices_float d3" using e3 by (rule prices_float_evolves) simp
  from filter_active_listings_Inr [OF 4] have s4: "sub_table d3 d4" and a4: "all_active cfg d4"
    by simp_all
  from u3 p3 k3 b3 s4 a4 have c4: "cleaned cfg d4"
    by (simp add: cleaned_def ids_unique_sub prices_float_sub critical_present_sub imputed_sub)
  note e5 = step_ok_evolves [OF add_derived_ok 5]
  from c4 e5 show "cleaned cfg out" by (rule cleaned_evolves)
  from add_derived_ok 5 show "add_derived L out = Inr out" by (rule step_ok_idem)
  from handle_missing_values_cols [OF 3] s4 c1 c2 have "columns d4 = columns df"
    by (simp add: sub_table_def)
  then show "has_col out c = has_col df c" if "c \<notin> derived_columns" for c
    using evolves_col [OF e5 that] by (simp add: has_col_def)
qed

text \<open>A table with these guarantees, with its derived columns in place and prices that
  \<open>clean_price\<close> reads back, is returned unchanged.\<close>

lemma cleaned_fixpoint:
  assumes c: "cleaned cfg df" and d: "add_derived L df = Inr df"
    and p: "\<forall>r \<in> set (rows df). \<forall>p. r ''price'' = Num p \<longrightarrow> clean_price L (Num p) = Inr p"
  shows "clean_listings L cfg df = Inr df"
proof -
  from c have 1: "remove_duplicates df = Inr df" by (simp add: cleaned_def remove_duplicates_fix)
  from c p have 2: "normalize_price L df = Inr df" by (simp add: cleaned_def normalize_price_fix)
  from c have 3: "handle_missing_values L df = Inr df"
    by (simp add: cleaned_def handle_missing_values_fix)
  from c have 4: "filter_active_listings df cfg = Inr df"
    by (simp add: cleaned_def filter_active_listings_fix)
  from d have 5: "bindE (add_calculated_fields L df) (add_amenities L) = Inr df"
    by (simp add: add_derived_def)
  show ?thesis unfolding clean_listings_def by (simp add: 1 2 3 4 5)
qed

section \<open>Competitive analyzer: price segments\<close>

text \<open>The test \<open>bounds["min"] <= price < bounds["max"]\<close> of \<open>_assign_segment\<close>.\<close>

definition in_segment :: "segment \<Rightarrow> pyfloat \<Rightarrow> bool" where
  "in_segment b price = (fle (seg_min b) price \<and> flt price (seg_max b))"

text \<open>
  \<open>CompetitiveAnalyzer._assign_segment\<close>: the loop over \<open>self._segments.items()\<close>
  returns at the first interval that holds the price, and \<open>"Other"\<close> after the loop.
\<close>

fun assign_segment :: "segment list \<Rightarrow> pyfloat \<Rightarrow> string" where
  "assign_segment [] price = ''Other''"
| "assign_segment (b # bs) price =
     (if in_segment b price then seg_label b else assign_segment bs price)"

lemma assign_segment_none:
  "(\<forall>b \<in> set segs. \<not> in_segment b price) \<Longrightarrow> assign_segment segs price = ''Other''"
  by (induction segs) auto

lemma assign_segment_first:
  "(\<forall>b \<in> set pre. \<not> in_segment b price) \<Longrightarrow> in_segment s price \<Longrightarrow>
   assign_segment (pre @ s # post) price = seg_label s"
  by (induction pre) auto

lemma in_segment_NaN: "\<not> in_segment b NaN"
  by (cases "seg_min b") (simp_all add: in_segment_def)

lemma flt_irrefl: "\<not> flt p p"
  by (cases p) simp_all

lemma in_segment_max: "\<not> in_segment b (seg_max b)"
  by (simp add: in_segment_def flt_irrefl)

lemma assign_segment_split:
  "(\<exists>pre s post. segs = pre @ s # post \<and> (\<forall>b \<in> set pre. \<not> in_segment b price)
      \<and> in_segment s price \<and> assign_segment segs price = seg_label s)
   \<or> ((\<forall>b \<in> set segs. \<not> in_segment b price) \<and> assign_segment segs price = ''Other'')"
proof (induction segs)
  case Nil
  then show ?case by simp
next
  case (Cons b bs)
  show ?case
  proof (cases "in_segment b price")
    case True
    then have "b # bs = [] @ b # bs \<and> (\<forall>c \<in> set []. \<not> in_segment c price)
        \<and> in_segment b price \<and> assign_segment (b # bs) price = seg_label b"
      by simp
    then show ?thesis by blast
  next
    case False
    from Cons.IH show ?thesis
    proof
      assume "\<exists>pre s post. bs = pre @ s # post \<and> (\<forall>c \<in> set pre. \<not> in_segment c price)
        \<and> in_segment s price \<and> assign_segment bs price = seg_label s"
      then obtain pre s post where h: "bs = pre @ s # post"
        "\<forall>c \<in> set pre. \<not> in_segment c price" "in_segment s price"
        "assign_segment bs price = seg_label s"
        by blast
      from h False have "b # bs = (b # pre) @ s # post
        \<and> (\<forall>c \<in> set (b # pre). \<not> in_segment c price)
        \<and> in_segment s price \<and> assign_segment (b # bs) price = seg_label s"
        by simp
      then show ?thesis by blast
    next
      assume "(\<forall>c \<in> set bs. \<not> in_segment c price) \<and> assign_segment bs price = ''Other''"
      with False show ?thesis by simp
    qed
  qed
qed

lemma assign_segment_boundary:
  assumes "\<forall>c \<in> set pre. \<not> in_segment c (seg_max a)"
    and "seg_min b = seg_max a" and "flt (seg_max a) (seg_max b)"
  shows "assign_segment (pre @ a # b # post) (seg_max a) = seg_label b"
proof -
  from assms(3) have "seg_max a \<noteq> NaN" by (cases "seg_max a") auto
  then have "fle (seg_max a) (seg_max a)" by (cases "seg_max a") auto
  with assms(2,3) have inb: "in_segment b (seg_max a)" by (simp add: in_segment_def)
  from assms(1) have "\<forall>c \<in> set (pre @ [a]). \<not> in_segment c (seg_max a)"
    by (simp add: in_segment_max)
  from assign_segment_first [OF this inb, of post] show ?thesis by simp
qed

text \<open>A three-tier configuration used to exercise the statements below.\<close>

definition example_segments :: "segment list" where
  "example_segments =
    [\<lparr>seg_name = ''budget'', seg_min = Fin 0, seg_max = Fin 75, seg_label = ''Budget''\<rparr>,
     \<lparr>seg_name = ''mid'', seg_min = Fin 75, seg_max = Fin 150, seg_label = ''Mid-Range''\<rparr>,
     \<lparr>seg_name = ''premium'', seg_min = Fin 150, seg_max = Fin 500, seg_label = ''Premium''\<rparr>]"

text \<open>
  Claim C3. Segment assignment is total and single-valued (it is a function of the
  configuration and the price, a missing price included): its value is the label of
  the first configured interval, in declaration order, with \<open>min <= price < max\<close>,
  and \<open>"Other"\<close> when no interval holds the price, which is the case of a missing
  price (NaN). Intervals are half-open: a price equal to a tier's \<open>max\<close> is not in that
  tier, and it is assigned to the next tier when that tier starts at this value (and no
  earlier tier holds the price).
\<close>

theorem assign_segment_first_match:
  "((\<exists>pre s post. segs = pre @ s # post \<and> (\<forall>b \<in> set pre. \<not> in_segment b price)
        \<and> in_segment s price \<and> assign_segment segs price = seg_label s)
     \<or> ((\<forall>b \<in> set segs. \<not> in_segment b price) \<and> assign_segment segs price = ''Other''))
   \<and> assign_segment segs NaN = ''Other''
   \<and> \<not> in_segment a (seg_max a)
   \<and> ((\<forall>c \<in> set pre'. \<not> in_segment c (seg_max a)) \<and> seg_min b' = seg_max a
        \<and> flt (seg_max a) (seg_max b')
      \<longrightarrow> assign_segment (pre' @ a # b' # post') (seg_max a) = seg_label b')"
  using assign_segment_split [of segs price] assign_segment_none [of segs NaN]
    in_segment_NaN in_segment_max [of a] assign_segment_boundary [of pre' a b' post']
  by blast

theorem assign_segment_first_match_witness:
  "assign_segment example_segments (Fin 75) = ''Mid-Range''
   \<and> assign_segment example_segments (Fin 74) = ''Budget''
   \<and> assign_segment example_segments (Fin 500) = ''Other''
   \<and> assign_segment example_segments NaN = ''Other''"
proof -
  let ?a = "example_segments ! 0" and ?b = "example_segments ! 1"
  note t = assign_segment_first_match
    [of example_segments NaN ?a "[]" ?b "[example_segments ! 2]"]
  have h: "(\<forall>c \<in> set []. \<not> in_segment c (seg_max ?a)) \<and> seg_min ?b = seg_max ?a
      \<and> flt (seg_max ?a) (seg_max ?b)"
    by (simp add: example_segments_def)
  from t h have b:
    "assign_segment ([] @ ?a # ?b # [example_segments ! 2]) (seg_max ?a) = seg_label ?b"
    by blast
  from t have n: "assign_segment example_segments NaN = ''Other''"
    by blast
  have e: "[] @ ?a # ?b # [example_segments ! 2] = example_segments"
    "seg_max ?a = Fin 75" "seg_label ?b = ''Mid-Range''"
    by (simp_all add: example_segments_def)
  from b have "assign_segment example_segments (Fin 75) = ''Mid-Range''"
    unfolding e .
  moreover have "assign_segment example_segments (Fin 74) = ''Budget''"
    "assign_segment example_segments (Fin 500) = ''Other''"
    by (simp_all add: example_segments_def in_segment_def)
  ultimately show ?thesis using n by simp
qed

section \<open>The cleaned table: invariant and idempotence\<close>

text \<open>
  A library instance used to exercise the statements: the mean is the sum, added from the
  left, over the length, and the median is the middle of the sorted values, or the mean of
  the two middle ones.
\<close>

fun example_insert :: "pyfloat \<Rightarrow> pyfloat list \<Rightarrow> pyfloat list" where
  "example_insert x [] = [x]"
| "example_insert x (y # ys) = (if fle x y then x # y # ys else y # example_insert x ys)"

definition example_median :: "pyfloat list \<Rightarrow> pyfloat" where
  "example_median xs =
     (let s = foldr example_insert xs []; n = length s
      in if odd n then s ! (n div 2)
         else fdiv (fadd (s ! (n div 2 - 1)) (s ! (n div 2))) (Fin 2))"

definition example_lib :: pylib where
  "example_lib =
     \<lparr>float_repr = (\<lambda>r. if r = 80 then ''80.0'' else if r = 120 then ''120.0'' else ''0.0''),
      int_max_str_digits = 4300,
      json_loads = (\<lambda>s. if s = ''[1]'' then Some (JArr [JNum (Fin 1)]) else None),
      json_str = (\<lambda>j. ''1''),
      to_datetime = (\<lambda>col i. case col ! i of Day d \<Rightarrow> Some d | _ \<Rightarrow> None),
      today = 20000, dt_month = (\<lambda>d. 1 + (d div 30) mod 12),
      dt_dayofweek = (\<lambda>d. (d + 3) mod 7),
      float_mean = (\<lambda>xs. fdiv (foldl fadd (Fin 0) xs) (Fin (real (length xs)))),
      float_median = example_median,
      float_sum = foldl fadd (Fin 0)\<rparr>"

definition example_config :: config where
  "example_config = \<lparr>price_min = Fin 10, price_max = Fin 1000, min_reviews = Fin 1,
     segments = example_segments, high_season_months = [6, 7, 8], low_season_months = [1, 2]\<rparr>"

text \<open>A row from its cells; a column not listed is missing.\<close>

definition row_of :: "(string \<times> cell) list \<Rightarrow> string \<Rightarrow> cell" where
  "row_of kvs c = (case map_of kvs c of Some v \<Rightarrow> v | None \<Rightarrow> Num NaN)"

definition example_listings :: table where
  "example_listings =
     \<lparr>columns = [''id'', ''price'', ''latitude'', ''longitude'', ''number_of_reviews'',
                 ''availability_365''],
      rows = [row_of [(''id'', IntC 1), (''price'', Num (Fin 80)), (''latitude'', Num (Fin 30)),
                      (''longitude'', Num (Fin (- 97))), (''number_of_reviews'', IntC 5),
                      (''availability_365'', IntC 0)],
              row_of [(''id'', IntC 2), (''price'', Num (Fin 120)), (''latitude'', Num (Fin 30)),
                      (''longitude'', Num (Fin (- 97))), (''number_of_reviews'', IntC 0),
                      (''availability_365'', IntC 100)]]\<rparr>"

lemma example_listings_cleaned: "cleaned example_config example_listings"
  by (simp add: cleaned_def ids_unique_def prices_float_def critical_present_iff imputed_def
      all_active_def example_listings_def example_config_def has_col_def row_of_def isna_def
      price_in_bounds_def is_active_def cell_ge_def cell_le_def cell_gt_def)

lemma example_listings_derived: "add_derived L example_listings = Inr example_listings"
  by (simp add: add_derived_def add_calculated_fields_def add_price_per_person_def
      add_monthly_revenue_def add_review_recency_def add_flag_def add_amenities_def
      example_listings_def has_col_def)

lemmas float_parser_defs =
  remove_char_def strip_def is_space_def py_float_def to_ascii_text.simps c_strip_def
  is_c_space_def parse_floatvalue_def parse_abs_def lower_char_def parse_floatnumber_def
  is_exp_mark_def parse_number_def digits_real_def is_digit_def digit_val_def nat_of_digits_def

lemma example_prices_read_back:
  "clean_price example_lib (Num (Fin 80)) = Inr (Fin 80)"
  "clean_price example_lib (Num (Fin 120)) = Inr (Fin 120)"
  by (simp_all add: clean_price_def isna_def example_lib_def float_parser_defs)

lemma example_listings_fixpoint:
  "clean_listings example_lib example_config example_listings = Inr example_listings"
proof (rule cleaned_fixpoint [OF example_listings_cleaned example_listings_derived])
  show "\<forall>r \<in> set (rows example_listings). \<forall>p. r ''price'' = Num p \<longrightarrow>
      clean_price example_lib (Num p) = Inr p"
    by (auto simp: example_listings_def row_of_def example_prices_read_back)
qed

lemma price_bounds_of:
  assumes "price_in_bounds cfg r = Inr True" and "r ''price'' = Num p"
  shows "fle (price_min cfg) p \<and> fle p (price_max cfg)"
  using assms by (simp add: price_in_bounds_def cell_ge_def cell_le_def)

lemma active_of:
  assumes "is_active cfg True r = Inr True"
  shows "cell_ge (r ''number_of_reviews'') (min_reviews cfg) = Inr True
       \<or> cell_gt (r ''availability_365'') (Fin 0) = Inr True"
proof -
  from assms obtain a b where "cell_ge (r ''number_of_reviews'') (min_reviews cfg) = Inr a"
    "cell_gt (r ''availability_365'') (Fin 0) = Inr b" "a \<or> b"
    by (auto simp: is_active_def bindE_Inr)
  then show ?thesis by auto
qed

text \<open>
  Claim C1. For every raw listing table with the columns id, price, latitude,
  longitude, number_of_reviews and availability_365 and every configuration, every row
  of the table that \<open>clean_listings\<close> returns has no missing id, price, latitude or
  longitude; its price is a float with \<open>min <= price <= max\<close>; and it has
  \<open>number_of_reviews >= r\<close> or \<open>availability_365 > 0\<close>.
\<close>

theorem clean_listings_invariant:
  assumes "clean_listings L cfg df = Inr out"
    and "has_col df ''id''" "has_col df ''price''" "has_col df ''latitude''"
      "has_col df ''longitude''" "has_col df ''number_of_reviews''"
      "has_col df ''availability_365''"
    and "r \<in> set (rows out)"
  shows "\<not> isna (r ''id'') \<and> \<not> isna (r ''price'') \<and> \<not> isna (r ''latitude'')
     \<and> \<not> isna (r ''longitude'')
     \<and> (\<exists>p. r ''price'' = Num p \<and> fle (price_min cfg) p \<and> fle p (price_max cfg))
     \<and> (cell_ge (r ''number_of_reviews'') (min_reviews cfg) = Inr True
          \<or> cell_gt (r ''availability_365'') (Fin 0) = Inr True)"
proof -
  note c = clean_listings_cleaned [OF assms(1)]
  have n: "''id'' \<notin> derived_columns" "''price'' \<notin> derived_columns"
    "''latitude'' \<notin> derived_columns" "''longitude'' \<notin> derived_columns"
    "''availability_365'' \<notin> derived_columns"
    by (simp_all add: derived_columns_def)
  from c(3) n assms(2-7) have h: "has_col out ''id''" "has_col out ''price''"
    "has_col out ''latitude''" "has_col out ''longitude''" "has_col out ''availability_365''"
    by simp_all
  from c(1) have cp: "critical_present out" and pf: "prices_float out" and aa: "all_active cfg out"
    by (simp_all add: cleaned_def)
  from cp h assms(8) have 1: "\<not> isna (r ''id'') \<and> \<not> isna (r ''price'') \<and> \<not> isna (r ''latitude'')
     \<and> \<not> isna (r ''longitude'')"
    unfolding critical_present_iff by blast
  from pf assms(8) obtain p where p: "r ''price'' = Num p" unfolding prices_float_def by blast
  from aa assms(8) h(5) have b: "price_in_bounds cfg r = Inr True"
    and a: "is_active cfg True r = Inr True"
    unfolding all_active_def by auto
  from price_bounds_of [OF b p] p active_of [OF a] 1 show ?thesis by blast
qed

theorem clean_listings_invariant_witness:
  "clean_listings example_lib example_config example_listings = Inr example_listings
   \<and> hd (rows example_listings) ''price'' = Num (Fin 80)
   \<and> \<not> isna (hd (rows example_listings) ''latitude'')
   \<and> cell_ge (hd (rows example_listings) ''number_of_reviews'') (min_reviews example_config)
        = Inr True"
proof -
  have c: "has_col example_listings ''id''" "has_col example_listings ''price''"
    "has_col example_listings ''latitude''" "has_col example_listings ''longitude''"
    "has_col example_listings ''number_of_reviews''" "has_col example_listings ''availability_365''"
    by (simp_all add: example_listings_def has_col_def)
  have r: "hd (rows example_listings) \<in> set (rows example_listings)"
    by (simp add: example_listings_def)
  note t = clean_listings_invariant [OF example_listings_fixpoint c r]
  have "hd (rows example_listings) ''price'' = Num (Fin 80)"
    "cell_ge (hd (rows example_listings) ''number_of_reviews'') (min_reviews example_config)
        = Inr True"
    by (simp_all add: example_listings_def row_of_def example_config_def cell_ge_def)
  with t example_listings_fixpoint show ?thesis by blast
qed

text \<open>
  Claim C7. \<open>clean_listings\<close> is idempotent on its own output: cleaning the table it
  returned, with the same configuration, on the same day, returns that table again, with
  the same columns, rows and cells, aside from the re-parsing of the prices: it is
  assumed that \<open>clean_price\<close> gives back each price of the table, a float, as it is.
\<close>

theorem clean_listings_idempotent:
  assumes "clean_listings L cfg df = Inr out"
    and "\<forall>r \<in> set (rows out). \<forall>p. r ''price'' = Num p \<longrightarrow> clean_price L (Num p) = Inr p"
  shows "clean_listings L cfg out = Inr out"
  using clean_listings_cleaned (1,2) [OF assms(1)] assms(2) by (rule cleaned_fixpoint)

theorem clean_listings_idempotent_witness:
  "clean_listings example_lib example_config example_listings = Inr example_listings
   \<and> length (rows example_listings) = 2"
proof -
  have "\<forall>r \<in> set (rows example_listings). \<forall>p. r ''price'' = Num p \<longrightarrow>
      clean_price example_lib (Num p) = Inr p"
    by (auto simp: example_listings_def row_of_def example_prices_read_back)
  from clean_listings_idempotent [OF example_listings_fixpoint this]
  show ?thesis by (simp add: example_listings_def)
qed

section \<open>Analyzer results\<close>

text \<open>
  A value of a result dict: a float, an int, a string or a list of ints. A dict is the
  list of its items in insertion order.
\<close>

datatype pyval = VFloat pyfloat | VInt int | VStr string | VInts "int list"

type_synonym pydict = "(string \<times> pyval) list"

text \<open>
  The aggregations \<open>count\<close>, \<open>mean\<close> and \<open>median\<close> of a column over the rows of one
  group. \<open>count\<close> is the number of cells that are not missing. An aggregated column
  holds numbers, booleans and missing values: \<open>numeric_col\<close> is this test, and the
  aggregation of any other column raises.
\<close>

definition agg_count :: "string \<Rightarrow> (string \<Rightarrow> cell) list \<Rightarrow> nat" where
  "agg_count c rs = length (filter (\<lambda>r. \<not> isna (r c)) rs)"

definition col_floats :: "string \<Rightarrow> (string \<Rightarrow> cell) list \<Rightarrow> pyfloat list" where
  "col_floats c rs = map (\<lambda>r. case as_float (r c) of Some x \<Rightarrow> x | None \<Rightarrow> NaN) rs"

definition agg_mean :: "pylib \<Rightarrow> string \<Rightarrow> (string \<Rightarrow> cell) list \<Rightarrow> pyfloat" where
  "agg_mean L c rs = series_mean L (col_floats c rs)"

definition agg_median :: "pylib \<Rightarrow> string \<Rightarrow> (string \<Rightarrow> cell) list \<Rightarrow> pyfloat" where
  "agg_median L c rs = series_median L (col_floats c rs)"

definition numeric_col :: "table \<Rightarrow> string \<Rightarrow> bool" where
  "numeric_col df c = (\<forall>r \<in> set (rows df). as_float (r c) \<noteq> None)"

section \<open>Competitive analyzer: the segment summary\<close>

text \<open>
  \<open>_assign_segment\<close> on one cell of the price column. The comparison of a bound with a
  string, a list or a date raises TypeError; with no segment configured nothing is
  compared.
\<close>

definition segment_of :: "segment list \<Rightarrow> cell \<Rightarrow> error + string" where
  "segment_of segs c =
     (case as_float c of
        Some p \<Rightarrow> Inr (assign_segment segs p)
      | None \<Rightarrow> if segs = [] then Inr ''Other'' else Inl TypeError)"

text \<open>
  \<open>add_segments_to_df\<close>, as a function of the table held by the analyzer:
  \<open>df["segment"] = df["price"].apply(self._assign_segment)\<close> on a copy.
\<close>

definition add_segments_to_df :: "segment list \<Rightarrow> table \<Rightarrow> error + table" where
  "add_segments_to_df segs df =
     (if \<not> has_col df ''price'' then Inl KeyError
      else assign_rows ''segment''
             (\<lambda>r. bindE (segment_of segs (r ''price'')) (\<lambda>s. Inr (Str s))) df)"

text \<open>One row of the summary of \<open>segment_by_price\<close>.\<close>

record segment_row =
  listings :: nat
  avg_price :: pyfloat
  median_price :: pyfloat
  avg_rating :: pyfloat
  pct :: pyfloat

text \<open>
  The aggregation of one group; \<open>n\<close> is \<open>summary["listings"].sum()\<close>, and the
  division is numpy's, so that an empty total gives NaN.
\<close>

definition summarize :: "pylib \<Rightarrow> nat \<Rightarrow> (string \<Rightarrow> cell) list \<Rightarrow> segment_row" where
  "summarize L n rs =
     \<lparr>listings = agg_count ''id'' rs,
      avg_price = agg_mean L ''price'' rs,
      median_price = agg_median L ''price'' rs,
      avg_rating = agg_mean L ''review_scores_rating'' rs,
      pct = fmul (fdiv (Fin (real (agg_count ''id'' rs))) (Fin (real n))) (Fin 100)\<rparr>"

text \<open>
  \<open>segment_by_price\<close>: the summary has one row for each label that some listing got;
  \<open>summary.reindex([o for o in order if o in summary.index])\<close> then goes through the
  declared labels in order and keeps those that are in the summary. The result is the
  list of the rows with their labels.
\<close>

definition segment_by_price ::
  "pylib \<Rightarrow> segment list \<Rightarrow> table \<Rightarrow> error + (string \<times> segment_row) list" where
  "segment_by_price L segs df =
     bindE (add_segments_to_df segs df)
       (\<lambda>d. if \<not> (has_col d ''id'' \<and> has_col d ''review_scores_rating'') then Inl KeyError
             else if \<not> (numeric_col d ''price'' \<and> numeric_col d ''review_scores_rating'')
             then Inl TypeError
             else (let grp = (\<lambda>l. filter (\<lambda>r. r ''segment'' = Str l) (rows d));
                       n = agg_count ''id'' (rows d);
                       labels = map seg_label segs
                   in Inr (map (\<lambda>l. (l, summarize L n (grp l)))
                             (filter (\<lambda>l. grp l \<noteq> []) labels))))"

section \<open>Competitive analyzer: the superhost premium\<close>

text \<open>
  \<open>self.df.groupby("is_superhost")\<close>: the rows of the group with key \<open>k\<close> (keys are
  compared as hashed: \<open>True\<close>, \<open>1\<close> and \<open>1.0\<close> are one key), and the labels of the
  index of the groups, which are the values of the column that are not missing.
\<close>

definition group_rows :: "table \<Rightarrow> string \<Rightarrow> cell \<Rightarrow> (string \<Rightarrow> cell) list" where
  "group_rows df c k = filter (\<lambda>r. norm_key (r c) = norm_key k) (rows df)"

definition group_keys :: "table \<Rightarrow> string \<Rightarrow> cell list" where
  "group_keys df c = filter (\<lambda>k. \<not> isna k) (map (\<lambda>r. r c) (rows df))"

fun is_number :: "cell \<Rightarrow> bool" where
  "is_number (Num x) = True"
| "is_number (IntC n) = True"
| "is_number _ = False"

fun is_bool :: "cell \<Rightarrow> bool" where
  "is_bool (Bool b) = True"
| "is_bool _ = False"

text \<open>
  \<open>b in groups.index\<close> for a boolean \<open>b\<close>. An index made of numbers only is a numeric
  index, where a boolean is never found; in any other index the label is found by hash
  and equality.
\<close>

definition bool_in_index :: "cell list \<Rightarrow> bool \<Rightarrow> bool" where
  "bool_in_index keys b =
     ((\<exists>k \<in> set keys. \<not> is_number k) \<and> (\<exists>k \<in> set keys. norm_key k = norm_key (Bool b)))"

definition superhost_note :: pydict where
  "superhost_note = [(''note'', VStr ''Insufficient data for superhost comparison'')]"

text \<open>The dict of the comparison, from the rows of the two groups.\<close>

definition superhost_stats ::
  "pylib \<Rightarrow> (string \<Rightarrow> cell) list \<Rightarrow> (string \<Rightarrow> cell) list \<Rightarrow> pydict" where
  "superhost_stats L sh reg =
     (let sp = agg_mean L ''price'' sh; rp = agg_mean L ''price'' reg
      in [(''superhost_avg_price'', VFloat sp),
          (''regular_avg_price'', VFloat rp),
          (''price_premium_pct'', VFloat (fmul (fdiv (fsub sp rp) rp) (Fin 100))),
          (''superhost_avg_rating'', VFloat (agg_mean L ''review_scores_rating'' sh)),
          (''regular_avg_rating'', VFloat (agg_mean L ''review_scores_rating'' reg)),
          (''superhost_count'', VInt (int (agg_count ''id'' sh))),
          (''regular_count'', VInt (int (agg_count ''id'' reg)))])"

text \<open>
  \<open>get_superhost_premium\<close>. The aggregation raises KeyError without one of its
  columns and TypeError on a column it cannot average or on a list as a key.
  \<open>groups.loc[True]\<close> needs an index of booleans and raises KeyError on another one.
\<close>

definition get_superhost_premium :: "pylib \<Rightarrow> table \<Rightarrow> error + pydict" where
  "get_superhost_premium L df =
     (if \<not> has_col df ''is_superhost'' then Inr []
      else if \<not> (has_col df ''price'' \<and> has_col df ''review_scores_rating''
                 \<and> has_col df ''number_of_reviews'' \<and> has_col df ''id'')
      then Inl KeyError
      else bindE (key_col df ''is_superhost'')
        (\<lambda>ks. if \<not> (numeric_col df ''price'' \<and> numeric_col df ''review_scores_rating''
                     \<and> numeric_col df ''number_of_reviews'')
              then Inl TypeError
              else (let keys = group_keys df ''is_superhost''
                    in if \<not> bool_in_index keys True \<or> \<not> bool_in_index keys False
                       then Inr superhost_note
                       else if \<not> (\<forall>k \<in> set keys. is_bool k) then Inl KeyError
                       else Inr (superhost_stats L (group_rows df ''is_superhost'' (Bool True))
                                   (group_rows df ''is_superhost'' (Bool False))))))"

section \<open>Properties of the competitive analyzer\<close>

lemma add_segments_to_df_Inr:
  assumes "add_segments_to_df segs df = Inr d"
  shows "rows d = map (\<lambda>r. r(''segment'' := Str (projr (segment_of segs (r ''price''))))) (rows df)"
    and "\<forall>r \<in> set (rows df). segment_of segs (r ''price'')
           = Inr (projr (segment_of segs (r ''price'')))"
proof -
  let ?f = "\<lambda>r. bindE (segment_of segs (r ''price'')) (\<lambda>s. Inr (Str s))"
  from assms have a: "assign_rows ''segment'' ?f df = Inr d"
    by (simp add: add_segments_to_df_def split: if_splits)
  note b = assign_rows_Inr [OF a]
  show 2: "\<forall>r \<in> set (rows df). segment_of segs (r ''price'')
           = Inr (projr (segment_of segs (r ''price'')))"
  proof
    fix r assume "r \<in> set (rows df)"
    with b have "?f r = Inr (projr (?f r))" by blast
    then show "segment_of segs (r ''price'') = Inr (projr (segment_of segs (r ''price'')))"
      by (cases "segment_of segs (r ''price'')") simp_all
  qed
  have "\<forall>r \<in> set (rows df). projr (?f r) = Str (projr (segment_of segs (r ''price'')))"
  proof
    fix r assume "r \<in> set (rows df)"
    with 2 have "segment_of segs (r ''price'') = Inr (projr (segment_of segs (r ''price'')))"
      by blast
    then show "projr (?f r) = Str (projr (segment_of segs (r ''price'')))"
      by (cases "segment_of segs (r ''price'')") simp_all
  qed
  with b show "rows d
      = map (\<lambda>r. r(''segment'' := Str (projr (segment_of segs (r ''price''))))) (rows df)"
    by (simp add: setcol_def)
qed

lemma segment_group_nonempty:
  assumes "add_segments_to_df segs df = Inr d"
  shows "filter (\<lambda>r. r ''segment'' = Str l) (rows d) \<noteq> []
     \<longleftrightarrow> (\<exists>r \<in> set (rows df). segment_of segs (r ''price'') = Inr l)"
proof -
  note a = add_segments_to_df_Inr [OF assms]
  have "filter (\<lambda>r. r ''segment'' = Str l) (rows d) \<noteq> []
     \<longleftrightarrow> (\<exists>r \<in> set (rows d). r ''segment'' = Str l)"
    by (simp add: filter_empty_conv)
  also have "\<dots> \<longleftrightarrow> (\<exists>r \<in> set (rows df). projr (segment_of segs (r ''price'')) = l)"
    unfolding a(1) by simp
  also have "\<dots> \<longleftrightarrow> (\<exists>r \<in> set (rows df). segment_of segs (r ''price'') = Inr l)"
    using a(2) by (metis sum.sel(2))
  finally show ?thesis .
qed

lemma segment_by_price_labels:
  assumes "segment_by_price L segs df = Inr s"
  shows "map fst s = filter (\<lambda>l. \<exists>r \<in> set (rows df). segment_of segs (r ''price'') = Inr l)
                       (map seg_label segs)"
proof -
  from assms obtain d where d: "add_segments_to_df segs df = Inr d"
    and s: "s = map (\<lambda>l. (l, summarize L (agg_count ''id'' (rows d))
                              (filter (\<lambda>r. r ''segment'' = Str l) (rows d))))
                  (filter (\<lambda>l. filter (\<lambda>r. r ''segment'' = Str l) (rows d) \<noteq> [])
                     (map seg_label segs))"
    by (auto simp: segment_by_price_def bindE_Inr Let_def split: if_splits)
  show ?thesis unfolding s by (simp add: comp_def segment_group_nonempty [OF d])
qed

lemma group_rows_empty_index:
  assumes "group_rows df c (Bool b) = []"
  shows "\<not> bool_in_index (group_keys df c) b"
proof
  assume "bool_in_index (group_keys df c) b"
  then obtain k where "k \<in> set (group_keys df c)" "norm_key k = norm_key (Bool b)"
    unfolding bool_in_index_def by blast
  then obtain r where "r \<in> set (rows df)" "norm_key (r c) = norm_key (Bool b)"
    by (auto simp: group_keys_def)
  then have "r \<in> set (group_rows df c (Bool b))" by (simp add: group_rows_def)
  with assms show False by simp
qed

lemma add_segments_to_df_total:
  assumes "has_col df ''price''" and "numeric_col df ''price''"
  shows "\<exists>d. add_segments_to_df segs df = Inr d \<and> (\<forall>c. has_col df c \<longrightarrow> has_col d c)
     \<and> (\<forall>c. c \<noteq> ''segment'' \<longrightarrow> numeric_col df c \<longrightarrow> numeric_col d c)"
proof -
  let ?f = "\<lambda>r. bindE (segment_of segs (r ''price'')) (\<lambda>s. Inr (Str s))"
  let ?g = "\<lambda>r. Str (assign_segment segs (the (as_float (r ''price''))))"
  from assms(2) have "\<forall>r \<in> set (rows df). ?f r = Inr (?g r)"
    by (auto simp: numeric_col_def segment_of_def)
  then have "mapE ?f (rows df) = Inr (map ?g (rows df))" by (rule mapE_map)
  with assms(1) have e: "add_segments_to_df segs df = Inr (setcol ''segment'' ?g df)"
    by (simp add: add_segments_to_df_def assign_rows_def setcol_list_map)
  have "\<forall>c. has_col df c \<longrightarrow> has_col (setcol ''segment'' ?g df) c"
    by (simp add: setcol_def has_col_def)
  moreover have "\<forall>c. c \<noteq> ''segment'' \<longrightarrow> numeric_col df c
      \<longrightarrow> numeric_col (setcol ''segment'' ?g df) c"
    by (simp add: setcol_def numeric_col_def)
  ultimately show ?thesis using e by blast
qed

lemma segment_by_price_total:
  assumes "has_col df ''price''" "has_col df ''id''" "has_col df ''review_scores_rating''"
    and "numeric_col df ''price''" "numeric_col df ''review_scores_rating''"
  shows "\<exists>s. segment_by_price L segs df = Inr s"
proof -
  from add_segments_to_df_total [OF assms(1,4), of segs] obtain d
    where d: "add_segments_to_df segs df = Inr d" "\<forall>c. has_col df c \<longrightarrow> has_col d c"
      "\<forall>c. c \<noteq> ''segment'' \<longrightarrow> numeric_col df c \<longrightarrow> numeric_col d c"
    by blast
  from d(2) assms(2,3) have h: "has_col d ''id''" "has_col d ''review_scores_rating''"
    by simp_all
  from d(3) assms(4,5) have n: "numeric_col d ''price''" "numeric_col d ''review_scores_rating''"
    by simp_all
  show ?thesis unfolding segment_by_price_def by (simp add: d(1) h n Let_def)
qed

text \<open>Two listings of the lowest tier, both of a regular host.\<close>

definition budget_listings :: table where
  "budget_listings =
     \<lparr>columns = [''id'', ''price'', ''review_scores_rating'', ''number_of_reviews'',
                 ''is_superhost''],
      rows = [row_of [(''id'', IntC 1), (''price'', Num (Fin 50)),
                      (''review_scores_rating'', Num (Fin 4)), (''number_of_reviews'', IntC 3),
                      (''is_superhost'', Bool False)],
              row_of [(''id'', IntC 2), (''price'', Num (Fin 60)),
                      (''review_scores_rating'', Num (Fin 5)), (''number_of_reviews'', IntC 7),
                      (''is_superhost'', Bool False)]]\<rparr>"

lemmas example_agg_defs =
  segment_by_price_def add_segments_to_df_def assign_rows_def setcol_list_def has_col_def
  numeric_col_def segment_of_def summarize_def agg_count_def agg_mean_def agg_median_def
  col_floats_def series_mean_def series_median_def example_lib_def example_median_def
  example_segments_def in_segment_def row_of_def isna_def

text \<open>
  The specification has a segment that is declared but has no listings still appear in
  the summary, in its declared position. It does not: with the three tiers declared and
  two listings, both in the lowest tier, the summary has the single row Budget.
\<close>

theorem segment_by_price_omits_empty:
  "segment_by_price example_lib example_segments budget_listings
     = Inr [(''Budget'', \<lparr>listings = 2, avg_price = Fin 55, median_price = Fin 55,
                         avg_rating = Fin (9 / 2), pct = Fin 100\<rparr>)]
   \<and> map seg_label example_segments = [''Budget'', ''Mid-Range'', ''Premium'']"
  by (simp add: example_agg_defs budget_listings_def to_double_one to_double_halves)

text \<open>
  Claim C4, as amended. For every listing table with the columns price, id and
  review_scores_rating holding numbers or missing values, \<open>segment_by_price\<close> returns a
  summary; and whenever it returns one, the labels of its rows are the declared labels
  that at least one listing was assigned, in the declared order of the segments. A
  declared segment with no listings has no row, and neither has \<open>"Other"\<close> unless it
  is a declared label.
\<close>

theorem segment_by_price_order:
  "(has_col df ''price'' \<and> has_col df ''id'' \<and> has_col df ''review_scores_rating''
      \<and> numeric_col df ''price'' \<and> numeric_col df ''review_scores_rating''
      \<longrightarrow> (\<exists>s. segment_by_price L segs df = Inr s))
   \<and> (\<forall>s. segment_by_price L segs df = Inr s
      \<longrightarrow> map fst s = filter (\<lambda>l. \<exists>r \<in> set (rows df). segment_of segs (r ''price'') = Inr l)
                        (map seg_label segs))"
  using segment_by_price_total [of df L segs] segment_by_price_labels [of L segs df]
  by blast

theorem segment_by_price_order_witness:
  "(\<exists>s. segment_by_price example_lib example_segments budget_listings = Inr s
        \<and> map fst s = [''Budget''])
   \<and> segment_of example_segments (Num (Fin 50)) = Inr ''Budget''"
proof -
  note t = segment_by_price_order [of budget_listings example_lib example_segments]
  have h: "has_col budget_listings ''price'' \<and> has_col budget_listings ''id''
      \<and> has_col budget_listings ''review_scores_rating''
      \<and> numeric_col budget_listings ''price''
      \<and> numeric_col budget_listings ''review_scores_rating''"
    by (simp add: budget_listings_def has_col_def numeric_col_def row_of_def)
  with t obtain s where s: "segment_by_price example_lib example_segments budget_listings = Inr s"
    by blast
  with t have "map fst s = filter (\<lambda>l. \<exists>r \<in> set (rows budget_listings).
      segment_of example_segments (r ''price'') = Inr l) (map seg_label example_segments)"
    by blast
  also have "\<dots> = [''Budget'']"
    by (simp add: budget_listings_def row_of_def segment_of_def example_segments_def
        in_segment_def)
  finally have "map fst s = [''Budget'']" .
  moreover have "segment_of example_segments (Num (Fin 50)) = Inr ''Budget''"
    by (simp add: segment_of_def example_segments_def in_segment_def)
  ultimately show ?thesis using s by auto
qed

text \<open>
  Claim C9. For every listing table that has an \<open>is_superhost\<close> column, if the group of
  the superhosts or the group of the regular hosts is empty (no row has the key \<open>True\<close>,
  or no row has the key \<open>False\<close>), then whatever \<open>get_superhost_premium\<close> returns is the
  note of insufficient data, which has no entry for the price premium; and it does
  return it when the four aggregated columns exist, the three averaged ones hold
  numbers or missing values, and no flag is a list.
\<close>

theorem get_superhost_premium_insufficient:
  assumes "has_col df ''is_superhost''"
    and "group_rows df ''is_superhost'' (Bool True) = []
       \<or> group_rows df ''is_superhost'' (Bool False) = []"
  shows "(\<forall>res. get_superhost_premium L df = Inr res \<longrightarrow> res = superhost_note)
     \<and> (has_col df ''price'' \<and> has_col df ''review_scores_rating''
          \<and> has_col df ''number_of_reviews'' \<and> has_col df ''id''
          \<and> numeric_col df ''price'' \<and> numeric_col df ''review_scores_rating''
          \<and> numeric_col df ''number_of_reviews''
          \<and> (\<forall>r \<in> set (rows df). \<not> is_list (r ''is_superhost''))
        \<longrightarrow> get_superhost_premium L df = Inr superhost_note)
     \<and> map_of superhost_note ''price_premium_pct'' = None
     \<and> (\<forall>sh reg. superhost_note \<noteq> superhost_stats L sh reg)"
proof -
  from assms(2) have n: "\<not> bool_in_index (group_keys df ''is_superhost'') True
      \<or> \<not> bool_in_index (group_keys df ''is_superhost'') False"
    using group_rows_empty_index [of df "''is_superhost''"] by blast
  have 1: "\<forall>res. get_superhost_premium L df = Inr res \<longrightarrow> res = superhost_note"
    using assms(1) n
    by (auto simp: get_superhost_premium_def bindE_Inr Let_def split: if_splits)
  have 2: "has_col df ''price'' \<and> has_col df ''review_scores_rating''
          \<and> has_col df ''number_of_reviews'' \<and> has_col df ''id''
          \<and> numeric_col df ''price'' \<and> numeric_col df ''review_scores_rating''
          \<and> numeric_col df ''number_of_reviews''
          \<and> (\<forall>r \<in> set (rows df). \<not> is_list (r ''is_superhost''))
        \<longrightarrow> get_superhost_premium L df = Inr superhost_note"
    using assms(1) n by (auto simp: get_superhost_premium_def key_col_def Let_def)
  have 3: "map_of superhost_note ''price_premium_pct'' = None"
    by (simp add: superhost_note_def)
  have 4: "\<forall>sh reg. superhost_note \<noteq> superhost_stats L sh reg"
    by (simp add: superhost_note_def superhost_stats_def Let_def)
  from 1 2 3 4 show ?thesis by blast
qed

theorem get_superhost_premium_insufficient_witness:
  "get_superhost_premium example_lib budget_listings
     = Inr [(''note'', VStr ''Insufficient data for superhost comparison'')]
   \<and> group_rows budget_listings ''is_superhost'' (Bool True) = []"
proof -
  have g: "group_rows budget_listings ''is_superhost'' (Bool True) = []"
    by (simp add: group_rows_def budget_listings_def row_of_def)
  have c: "has_col budget_listings ''is_superhost''"
    by (simp add: budget_listings_def has_col_def)
  from g have g': "group_rows budget_listings ''is_superhost'' (Bool True) = []
       \<or> group_rows budget_listings ''is_superhost'' (Bool False) = []"
    by blast
  note t = get_superhost_premium_insufficient [OF c g', of example_lib]
  have h: "has_col budget_listings ''price'' \<and> has_col budget_listings ''review_scores_rating''
          \<and> has_col budget_listings ''number_of_reviews'' \<and> has_col budget_listings ''id''
          \<and> numeric_col budget_listings ''price''
          \<and> numeric_col budget_listings ''review_scores_rating''
          \<and> numeric_col budget_listings ''number_of_reviews''
          \<and> (\<forall>r \<in> set (rows budget_listings). \<not> is_list (r ''is_superhost''))"
    by (simp add: budget_listings_def has_col_def numeric_col_def row_of_def)
  from t h have "get_superhost_premium example_lib budget_listings = Inr superhost_note"
    by blast
  with g show ?thesis by (simp add: superhost_note_def)
qed

text \<open>
  Claim C10. For every listing table with no \<open>is_superhost\<close> column,
  \<open>get_superhost_premium\<close> returns the empty dict, which is neither the note of
  insufficient data nor a dict of the comparison: both of these have entries.
\<close>

theorem get_superhost_premium_no_column:
  assumes "\<not> has_col df ''is_superhost''"
  shows "get_superhost_premium L df = Inr []
     \<and> [] \<noteq> superhost_note \<and> (\<forall>sh reg. [] \<noteq> superhost_stats L sh reg)"
  using assms
  by (simp add: get_superhost_premium_def superhost_note_def superhost_stats_def Let_def)

theorem get_superhost_premium_no_column_witness:
  "get_superhost_premium example_lib example_listings = Inr []
   \<and> \<not> has_col example_listings ''is_superhost''"
proof -
  have c: "\<not> has_col example_listings ''is_superhost''"
    by (simp add: example_listings_def has_col_def)
  from get_superhost_premium_no_column [OF c, of example_lib] c show ?thesis by blast
qed

section \<open>Data cleaner: the calendar\<close>

text \<open>
  A column is of a datetime dtype when its cells are dates or NaT. The accessors
  \<open>.dt.month\<close> and \<open>.dt.dayofweek\<close> give a missing value at NaT; the numbers are
  given as floats, also where pandas keeps an int column.
\<close>

fun is_day :: "cell \<Rightarrow> bool" where
  "is_day (Day d) = True"
| "is_day _ = False"

definition is_datetime :: "cell list \<Rightarrow> bool" where
  "is_datetime col = (\<forall>c \<in> set col. is_day c \<or> isna c)"

definition month_cell :: "pylib \<Rightarrow> cell \<Rightarrow> cell" where
  "month_cell L c = (case c of Day d \<Rightarrow> Num (Fin (real_of_int (dt_month L d))) | _ \<Rightarrow> Num NaN)"

definition dayofweek_cell :: "pylib \<Rightarrow> cell \<Rightarrow> cell" where
  "dayofweek_cell L c =
     (case c of Day d \<Rightarrow> Num (Fin (real_of_int (dt_dayofweek L d))) | _ \<Rightarrow> Num NaN)"

text \<open>\<open>Series.isin([4, 5])\<close> at one cell.\<close>

definition is_weekend_cell :: "cell \<Rightarrow> cell" where
  "is_weekend_cell c = Bool (norm_key c = Num (Fin 4) \<or> norm_key c = Num (Fin 5))"

text \<open>
  \<open>clean_calendar\<close>, each step a function from table to table: the dates are parsed
  unless the column is of a datetime dtype, the prices are cleaned, the flag
  \<open>available\<close> is mapped, the three time features are added, and the rows without a
  date are dropped.
\<close>

definition parse_date_column :: "pylib \<Rightarrow> table \<Rightarrow> error + table" where
  "parse_date_column L df =
     (if \<not> has_col df ''date'' then Inl KeyError
      else (let col = map (\<lambda>r. r ''date'') (rows df)
            in Inr (if is_datetime col then df else setcol_list ''date'' (parse_dates L col) df)))"

definition map_available :: "table \<Rightarrow> error + table" where
  "map_available df =
     (if \<not> has_col df ''available'' then Inl KeyError
      else assign_rows ''available'' (\<lambda>r. map_tf (r ''available'')) df)"

definition add_time_features :: "pylib \<Rightarrow> table \<Rightarrow> table" where
  "add_time_features L df =
     setcol ''is_weekend'' (\<lambda>r. is_weekend_cell (r ''day_of_week''))
       (setcol ''day_of_week'' (\<lambda>r. dayofweek_cell L (r ''date''))
         (setcol ''month'' (\<lambda>r. month_cell L (r ''date'')) df))"

definition clean_calendar :: "pylib \<Rightarrow> table \<Rightarrow> error + table" where
  "clean_calendar L df =
     bindE (parse_date_column L df)
       (\<lambda>d1. bindE (normalize_price L d1)
         (\<lambda>d2. bindE (map_available d2)
           (\<lambda>d3. Inr (dropna [''date''] (add_time_features L d3)))))"

section \<open>Seasonality analyzer\<close>

text \<open>
  \<open>get_price_by_month\<close> keeps the rows with a price and groups them by month. The rows
  of month \<open>m\<close>, and the column \<open>avg_price\<close> of the months of \<open>ms\<close> that have a row, in
  the ascending order of the months, which is the order of the groups.
\<close>

definition month_rows :: "table \<Rightarrow> int \<Rightarrow> (string \<Rightarrow> cell) list" where
  "month_rows cal m =
     filter (\<lambda>r. \<not> isna (r ''price'') \<and> as_float (r ''month'') = Some (Fin (real_of_int m)))
       (rows cal)"

definition month_avgs :: "pylib \<Rightarrow> table \<Rightarrow> int list \<Rightarrow> pyfloat list" where
  "month_avgs L cal ms =
     map (\<lambda>m. agg_mean L ''price'' (month_rows cal m))
       (filter (\<lambda>m. month_rows cal m \<noteq> []) (sort (remdups ms)))"

text \<open>
  \<open>price_by_month[price_by_month["month"].isin(ms)]["avg_price"].mean()\<close>, which is
  NaN when no month of \<open>ms\<close> has a row.
\<close>

definition season_avg :: "pylib \<Rightarrow> table \<Rightarrow> int list \<Rightarrow> pyfloat" where
  "season_avg L cal ms = series_mean L (month_avgs L cal ms)"

text \<open>
  \<open>((a - b) / b * 100) if b else 0\<close> on two floats: a float is false when it is zero,
  and NaN is true.
\<close>

definition premium_pct :: "pyfloat \<Rightarrow> pyfloat \<Rightarrow> pyval" where
  "premium_pct a b = (if b = Fin 0 then VInt 0 else VFloat (fmul (fdiv (fsub a b) b) (Fin 100)))"

text \<open>
  What the aggregation of the prices by a key column needs: the two columns, a key
  that is no list, and prices that are numbers where they are not missing.
\<close>

definition price_groups_ok :: "table \<Rightarrow> string \<Rightarrow> error + unit" where
  "price_groups_ok cal k =
     (if \<not> has_col cal ''price'' \<or> \<not> has_col cal k then Inl KeyError
      else if (\<exists>r \<in> set (rows cal). \<not> isna (r ''price'') \<and> is_list (r k))
            \<or> \<not> numeric_col cal ''price''
      then Inl TypeError
      else Inr ())"

definition identify_peak_season :: "pylib \<Rightarrow> config \<Rightarrow> table \<Rightarrow> error + pydict" where
  "identify_peak_season L cfg cal =
     bindE (price_groups_ok cal ''month'')
       (\<lambda>u. let high_avg = season_avg L cal (high_season_months cfg);
                 low_avg = season_avg L cal (low_season_months cfg)
             in Inr [(''high_season_months'', VInts (high_season_months cfg)),
                     (''low_season_months'', VInts (low_season_months cfg)),
                     (''high_season_avg_price'', VFloat high_avg),
                     (''low_season_avg_price'', VFloat low_avg),
                     (''seasonal_premium_pct'', premium_pct high_avg low_avg)])"

text \<open>
  \<open>get_weekend_vs_weekday_pricing\<close>. The mask \<open>cal["is_weekend"]\<close> has to be a column
  of booleans: with a missing value in it the selection raises ValueError, and with
  another value the column is taken for a list of labels, which raises KeyError.
\<close>

definition weekend_rows :: "table \<Rightarrow> bool \<Rightarrow> (string \<Rightarrow> cell) list" where
  "weekend_rows cal b =
     filter (\<lambda>r. \<not> isna (r ''price'') \<and> r ''is_weekend'' = Bool b) (rows cal)"

definition get_weekend_vs_weekday_pricing :: "pylib \<Rightarrow> table \<Rightarrow> error + pydict" where
  "get_weekend_vs_weekday_pricing L cal =
     (if \<not> has_col cal ''price'' \<or> \<not> has_col cal ''is_weekend'' then Inl KeyError
      else (let kept = filter (\<lambda>r. \<not> isna (r ''price'')) (rows cal)
            in if \<exists>r \<in> set kept. isna (r ''is_weekend'') then Inl ValueError
               else if \<exists>r \<in> set kept. \<not> is_bool (r ''is_weekend'') then Inl KeyError
               else if \<not> numeric_col cal ''price'' then Inl TypeError
               else (let weekend_avg = agg_mean L ''price'' (weekend_rows cal True);
                         weekday_avg = agg_mean L ''price'' (weekend_rows cal False)
                     in Inr [(''weekend_avg'', VFloat weekend_avg),
                             (''weekday_avg'', VFloat weekday_avg),
                             (''weekend_premium_pct'', premium_pct weekend_avg weekday_avg),
                             (''weekend_median'',
                                VFloat (agg_median L ''price'' (weekend_rows cal True))),
                             (''weekday_median'',
                                VFloat (agg_median L ''price'' (weekend_rows cal False)))])))"

section \<open>Properties of the seasonality analyzer\<close>

lemma month_cell_Num: "\<exists>m. month_cell L c = Num m"
  by (cases c) (simp_all add: month_cell_def)

lemma clean_calendar_shape:
  assumes "clean_calendar L raw = Inr cal"
  shows "has_col cal ''price''" "has_col cal ''month''" "has_col cal ''is_weekend''"
    and "\<forall>r \<in> set (rows cal). (\<exists>p. r ''price'' = Num p) \<and> (\<exists>m. r ''month'' = Num m)
           \<and> (\<exists>b. r ''is_weekend'' = Bool b)"
proof -
  from assms obtain d1 d2 d3 where 1: "parse_date_column L raw = Inr d1"
    and 2: "normalize_price L d1 = Inr d2" and 3: "map_available d2 = Inr d3"
    and c: "cal = dropna [''date''] (add_time_features L d3)"
    by (auto simp: clean_calendar_def bindE_Inr)
  from normalize_price_Inr [OF 2] have p2: "prices_float d2" by simp
  from 3 have "assign_rows ''available'' (\<lambda>r. map_tf (r ''available'')) d2 = Inr d3"
    by (simp add: map_available_def split: if_splits)
  then have "evolves {''available''} d2 d3" by (rule evolves_assign_rows)
  with p2 have p3: "prices_float d3" by (rule prices_float_evolves) simp
  then show "has_col cal ''price''" "has_col cal ''month''" "has_col cal ''is_weekend''"
    unfolding c
    by (simp_all add: prices_float_def dropna_def select_rows_def add_time_features_def
        setcol_def has_col_def)
  show "\<forall>r \<in> set (rows cal). (\<exists>p. r ''price'' = Num p) \<and> (\<exists>m. r ''month'' = Num m)
           \<and> (\<exists>b. r ''is_weekend'' = Bool b)"
  proof
    fix r assume "r \<in> set (rows cal)"
    then obtain r0 where r0: "r0 \<in> set (rows d3)"
      and r: "r = (r0(''month'' := month_cell L (r0 ''date''),
                     ''day_of_week'' := dayofweek_cell L (r0 ''date'')))
                  (''is_weekend'' := is_weekend_cell
                     ((r0(''month'' := month_cell L (r0 ''date''),
                          ''day_of_week'' := dayofweek_cell L (r0 ''date''))) ''day_of_week''))"
      unfolding c
      by (auto simp: dropna_def select_rows_def add_time_features_def setcol_def)
    from p3 r0 obtain p where "r0 ''price'' = Num p" unfolding prices_float_def by blast
    then have "r ''price'' = Num p" unfolding r by simp
    moreover have "\<exists>m. r ''month'' = Num m" unfolding r by (simp add: month_cell_Num)
    moreover have "\<exists>b. r ''is_weekend'' = Bool b" unfolding r by (simp add: is_weekend_cell_def)
    ultimately show "(\<exists>p. r ''price'' = Num p) \<and> (\<exists>m. r ''month'' = Num m)
           \<and> (\<exists>b. r ''is_weekend'' = Bool b)"
      by blast
  qed
qed

lemma clean_calendar_peak_season:
  assumes "clean_calendar L raw = Inr cal"
  shows "identify_peak_season L cfg cal =
     Inr [(''high_season_months'', VInts (high_season_months cfg)),
          (''low_season_months'', VInts (low_season_months cfg)),
          (''high_season_avg_price'', VFloat (season_avg L cal (high_season_months cfg))),
          (''low_season_avg_price'', VFloat (season_avg L cal (low_season_months cfg))),
          (''seasonal_premium_pct'',
             premium_pct (season_avg L cal (high_season_months cfg))
               (season_avg L cal (low_season_months cfg)))]"
proof -
  note s = clean_calendar_shape [OF assms]
  from s(4) have n: "numeric_col cal ''price''" by (auto simp: numeric_col_def)
  from s(4) have l: "\<not> (\<exists>r \<in> set (rows cal). \<not> isna (r ''price'') \<and> is_list (r ''month''))"
    by auto
  from s(1,2) n l have "price_groups_ok cal ''month'' = Inr ()"
    unfolding price_groups_ok_def by simp
  then show ?thesis by (simp add: identify_peak_season_def Let_def)
qed

lemma clean_calendar_weekend:
  assumes "clean_calendar L raw = Inr cal"
  shows "get_weekend_vs_weekday_pricing L cal =
     Inr [(''weekend_avg'', VFloat (agg_mean L ''price'' (weekend_rows cal True))),
          (''weekday_avg'', VFloat (agg_mean L ''price'' (weekend_rows cal False))),
          (''weekend_premium_pct'',
             premium_pct (agg_mean L ''price'' (weekend_rows cal True))
               (agg_mean L ''price'' (weekend_rows cal False))),
          (''weekend_median'', VFloat (agg_median L ''price'' (weekend_rows cal True))),
          (''weekday_median'', VFloat (agg_median L ''price'' (weekend_rows cal False)))]"
proof -
  note s = clean_calendar_shape [OF assms]
  from s(4) have n: "numeric_col cal ''price''" by (auto simp: numeric_col_def)
  from s(4) have b: "\<forall>r \<in> set (rows cal). \<not> isna (r ''is_weekend'') \<and> is_bool (r ''is_weekend'')"
    by (auto simp: isna_def)
  from s(1,3) n b show ?thesis
    by (simp add: get_weekend_vs_weekday_pricing_def Let_def)
qed

lemma premium_pct_cases:
  "premium_pct a (Fin 0) = VInt 0" "premium_pct a NaN = VFloat NaN"
  by (cases a; simp add: premium_pct_def fsub_def)+

text \<open>
  Two raw calendars. In the library of the examples day 183 is a Friday of July and day
  3 a Sunday of January; the low season of the example configuration is January and
  February.
\<close>

definition july_raw :: table where
  "july_raw =
     \<lparr>columns = [''listing_id'', ''date'', ''available'', ''price''],
      rows = [row_of [(''listing_id'', IntC 1), (''date'', Day 183), (''available'', Str ''t''),
                      (''price'', Str ''$100.00'')]]\<rparr>"

definition winter_raw :: table where
  "winter_raw =
     \<lparr>columns = [''listing_id'', ''date'', ''available'', ''price''],
      rows = [row_of [(''listing_id'', IntC 1), (''date'', Day 183), (''available'', Str ''t''),
                      (''price'', Str ''$100.00'')],
              row_of [(''listing_id'', IntC 1), (''date'', Day 3), (''available'', Str ''f''),
                      (''price'', Str ''$0.00'')]]\<rparr>"

lemmas example_calendar_defs =
  clean_calendar_def parse_date_column_def is_datetime_def normalize_price_def
  map_available_def map_tf_def add_time_features_def month_cell_def dayofweek_cell_def
  is_weekend_cell_def dropna_def select_rows_def setcol_def assign_rows_def setcol_list_def
  has_col_def row_of_def isna_def clean_price_def float_parser_defs example_lib_def

lemmas example_season_defs =
  identify_peak_season_def get_weekend_vs_weekday_pricing_def price_groups_ok_def
  numeric_col_def season_avg_def month_avgs_def month_rows_def weekend_rows_def
  premium_pct_def agg_mean_def agg_median_def col_floats_def series_mean_def
  series_median_def example_median_def example_config_def fsub_def

lemma july_cleaned:
  "clean_calendar example_lib july_raw = Inr (projr (clean_calendar example_lib july_raw))"
  by (simp add: example_calendar_defs july_raw_def)

text \<open>
  The specification has the premium reported as 0 when the mean of the low season, or
  of the weekdays, is undefined. It is NaN: the calendar cleaned from \<open>july_raw\<close> has
  no day in the low season and no weekday, both means are NaN, and so are both premiums.
\<close>

theorem premium_of_undefined_mean:
  "bindE (clean_calendar example_lib july_raw) (identify_peak_season example_lib example_config)
     = Inr [(''high_season_months'', VInts [6, 7, 8]),
            (''low_season_months'', VInts [1, 2]),
            (''high_season_avg_price'', VFloat (Fin 100)),
            (''low_season_avg_price'', VFloat NaN),
            (''seasonal_premium_pct'', VFloat NaN)]
   \<and> bindE (clean_calendar example_lib july_raw) (get_weekend_vs_weekday_pricing example_lib)
     = Inr [(''weekend_avg'', VFloat (Fin 100)),
            (''weekday_avg'', VFloat NaN),
            (''weekend_premium_pct'', VFloat NaN),
            (''weekend_median'', VFloat (Fin 100)),
            (''weekday_median'', VFloat NaN)]"
  by (simp add: example_calendar_defs example_season_defs july_raw_def to_double_one Let_def)

text \<open>
  Claim C2, as amended. For every calendar \<open>cal\<close> returned by \<open>clean_calendar\<close> and
  every configuration, \<open>identify_peak_season\<close> and \<open>get_weekend_vs_weekday_pricing\<close>
  return a result, they do not fail. When the mean price of the low season is zero the
  seasonal premium is the int 0; when it is undefined (NaN), as it is when no month of
  the low season has a priced day, the seasonal premium is NaN and not 0. Likewise the
  weekend premium is 0 when the mean price of the weekdays is zero, and NaN when it is
  undefined, as it is when there is no priced weekday.
\<close>

theorem premium_zero_or_undefined:
  assumes "clean_calendar L raw = Inr cal"
  shows "\<exists>res wres.
      identify_peak_season L cfg cal = Inr res
    \<and> get_weekend_vs_weekday_pricing L cal = Inr wres
    \<and> (map_of res ''low_season_avg_price'' = Some (VFloat (Fin 0))
         \<longrightarrow> map_of res ''seasonal_premium_pct'' = Some (VInt 0))
    \<and> (map_of res ''low_season_avg_price'' = Some (VFloat NaN)
         \<longrightarrow> map_of res ''seasonal_premium_pct'' = Some (VFloat NaN))
    \<and> ((\<forall>m \<in> set (low_season_months cfg). month_rows cal m = [])
         \<longrightarrow> map_of res ''low_season_avg_price'' = Some (VFloat NaN))
    \<and> (map_of wres ''weekday_avg'' = Some (VFloat (Fin 0))
         \<longrightarrow> map_of wres ''weekend_premium_pct'' = Some (VInt 0))
    \<and> (map_of wres ''weekday_avg'' = Some (VFloat NaN)
         \<longrightarrow> map_of wres ''weekend_premium_pct'' = Some (VFloat NaN))
    \<and> (weekend_rows cal False = [] \<longrightarrow> map_of wres ''weekday_avg'' = Some (VFloat NaN))"
proof -
  have e: "(\<forall>m \<in> set (low_season_months cfg). month_rows cal m = [])
      \<longrightarrow> season_avg L cal (low_season_months cfg) = NaN"
    by (auto simp: season_avg_def month_avgs_def series_mean_def filter_empty_conv)
  have w: "weekend_rows cal False = [] \<longrightarrow> agg_mean L ''price'' (weekend_rows cal False) = NaN"
    by (simp add: agg_mean_def col_floats_def series_mean_def)
  show ?thesis
    unfolding clean_calendar_peak_season [OF assms] clean_calendar_weekend [OF assms]
    using e w by (simp add: premium_pct_cases)
qed

definition winter_calendar :: table where
  "winter_calendar = projr (clean_calendar example_lib winter_raw)"

theorem premium_zero_or_undefined_witness:
  "clean_calendar example_lib winter_raw = Inr winter_calendar
   \<and> map_of (projr (identify_peak_season example_lib example_config winter_calendar))
        ''low_season_avg_price'' = Some (VFloat (Fin 0))
   \<and> map_of (projr (identify_peak_season example_lib example_config winter_calendar))
        ''seasonal_premium_pct'' = Some (VInt 0)
   \<and> map_of (projr (get_weekend_vs_weekday_pricing example_lib winter_calendar))
        ''weekday_avg'' = Some (VFloat (Fin 0))
   \<and> map_of (projr (get_weekend_vs_weekday_pricing example_lib winter_calendar))
        ''weekend_premium_pct'' = Some (VInt 0)"
proof -
  have c: "clean_calendar example_lib winter_raw = Inr winter_calendar"
    unfolding winter_calendar_def by (simp add: example_calendar_defs winter_raw_def)
  from premium_zero_or_undefined [OF c, of example_config] obtain res wres
    where r: "identify_peak_season example_lib example_config winter_calendar = Inr res"
      and w: "get_weekend_vs_weekday_pricing example_lib winter_calendar = Inr wres"
      and z: "map_of res ''low_season_avg_price'' = Some (VFloat (Fin 0))
         \<longrightarrow> map_of res ''seasonal_premium_pct'' = Some (VInt 0)"
      and z': "map_of wres ''weekday_avg'' = Some (VFloat (Fin 0))
         \<longrightarrow> map_of wres ''weekend_premium_pct'' = Some (VInt 0)"
    by blast
  have l: "season_avg example_lib winter_calendar (low_season_months example_config) = Fin 0"
    unfolding winter_calendar_def
    by (simp add: example_calendar_defs example_season_defs winter_raw_def to_double_one
        to_double_zero)
  have d: "agg_mean example_lib ''price'' (weekend_rows winter_calendar False) = Fin 0"
    unfolding winter_calendar_def
    by (simp add: example_calendar_defs example_season_defs winter_raw_def to_double_one
        to_double_zero)
  from r l have 1: "map_of res ''low_season_avg_price'' = Some (VFloat (Fin 0))"
    unfolding clean_calendar_peak_season [OF c] by auto
  from w d have 2: "map_of wres ''weekday_avg'' = Some (VFloat (Fin 0))"
    unfolding clean_calendar_weekend [OF c] by auto
  from 1 2 z z' c show ?thesis unfolding r w by simp
qed

section \<open>Objects: the tables a call creates and the tables it writes\<close>

text \<open>
  The DataFrame objects live in a heap, a list of tables; an object is known by its
  address, its position in the list, and a variable of the code holds an address. A
  computation takes the heap and returns it with its result. Two kinds of steps touch
  the heap:
  \<^item> \<open>new_from f a\<close>: an operation on the object at \<open>a\<close> that returns a new DataFrame
    (\<open>df.copy()\<close>, \<open>df.drop_duplicates(...)\<close>, \<open>df.dropna(...)\<close>, \<open>df[mask]\<close>); the new
    object gets the next free address, and no object is changed;
  \<^item> \<open>assign_in f a\<close>: an assignment \<open>df[c] = ...\<close> to the object at \<open>a\<close>, which is
    changed in place; the variable keeps its address.

  In both, a step that raises leaves the heap as it is.
\<close>

type_synonym heap = "table list"














section \<open>No call writes an object it was given\<close>

text \<open>
  \<open>keeps n h h'\<close>: the heap \<open>h'\<close> has the objects of \<open>h\<close> below address \<open>n\<close> unchanged.
  \<open>private_step n f p\<close>: run on an object at an address from \<open>n\<close> on, the step \<open>p\<close>
  keeps the objects below \<open>n\<close>, and it computes \<open>f\<close>: it raises when \<open>f\<close> does, and else
  returns an address from \<open>n\<close> on that holds the table \<open>f\<close> returns.
\<close>

definition keeps :: "nat \<Rightarrow> heap \<Rightarrow> heap \<Rightarrow> bool" where
  "keeps n h h' = (length h \<le> length h' \<and> (\<forall>x < n. h' ! x = h ! x))"


lemma keeps_refl: "keeps n h h"
  by (simp add: keeps_def)



















end
